theory Spec2Isabelle
  imports Complex_Main "HOL-Library.AList"
begin

section \<open>Python values and the operations the data commands use on them\<close>

text \<open>
  The data commands of \<^verbatim>\<open>semi/data/commands.py\<close> work on what \<^verbatim>\<open>json.load\<close> and the
  weaviate client return: \<^verbatim>\<open>None\<close>, booleans, numbers, strings, lists and dicts with
  string keys. A dict is the list of its items in insertion order; the keys of a dict are
  pairwise distinct. A number is kept by its value, so that \<^verbatim>\<open>1\<close> and \<^verbatim>\<open>1.0\<close> are the
  same key of a dict, as in Python; the floats that are not numbers (NaN, the infinities)
  are left out.
\<close>

datatype json =
    JNull
  | JBool bool
  | JNum rat
  | JStr string
  | JArr "json list"
  | JObj "(string \<times> json) list"

datatype py_error = KeyError | TypeError | AttributeError | IndexError | JSONDecodeError

text \<open>What \<^verbatim>\<open>print\<close> writes: a fixed text, an error value of a batch result, or the line of
  \<^verbatim>\<open>_exit_validation_failed\<close>, kept by the values its f-string interpolates:
  \<^verbatim>\<open>Class {obj_class_name} not in schema!\<close> and
  \<^verbatim>\<open>Property {obj_property_name} of class {obj_class_name} not in schema!\<close>.\<close>

datatype reason = ClassNotInSchema json | PropertyNotInSchema string json

datatype printed = PrintText string | PrintValue json | PrintValidationFailed reason

text \<open>How a call ends when it does not return: an exception that nothing catches (the
  interpreter prints the traceback and the process ends with status 1), or \<^verbatim>\<open>sys.exit\<close>
  with its status.\<close>

datatype failure = Raised py_error | SysExit nat

fun exit_status :: "failure \<Rightarrow> nat" where
  "exit_status (Raised e) = 1"
| "exit_status (SysExit n) = n"

text \<open>\<^verbatim>\<open>d.get(key, default)\<close>: only a dict has the method.\<close>

fun dict_get :: "json \<Rightarrow> string \<Rightarrow> json \<Rightarrow> failure + json" where
  "dict_get (JObj kvs) k dflt = Inr (case map_of kvs k of None \<Rightarrow> dflt | Some v \<Rightarrow> v)"
| "dict_get _ k dflt = Inl (Raised AttributeError)"

text \<open>\<^verbatim>\<open>x['key']\<close>: a missing key of a dict is a KeyError; a list or a string wants an
  integer index, and the other values have no subscript.\<close>

fun subscript_key :: "json \<Rightarrow> string \<Rightarrow> failure + json" where
  "subscript_key (JObj kvs) k =
     (case map_of kvs k of None \<Rightarrow> Inl (Raised KeyError) | Some v \<Rightarrow> Inr v)"
| "subscript_key _ k = Inl (Raised TypeError)"

text \<open>\<^verbatim>\<open>x[0]\<close>: the first element of a list, the first character of a string; a dict read
  from JSON has string keys only, so \<^verbatim>\<open>0\<close> is never one of them.\<close>

fun subscript_zero :: "json \<Rightarrow> failure + json" where
  "subscript_zero (JArr []) = Inl (Raised IndexError)"
| "subscript_zero (JArr (x # xs)) = Inr x"
| "subscript_zero (JStr []) = Inl (Raised IndexError)"
| "subscript_zero (JStr (c # cs)) = Inr (JStr [c])"
| "subscript_zero (JObj kvs) = Inl (Raised KeyError)"
| "subscript_zero _ = Inl (Raised TypeError)"

text \<open>\<^verbatim>\<open>for x in v\<close>: the elements of a list, the characters of a string, the keys of a
  dict; the other values are not iterable.\<close>

fun py_iter :: "json \<Rightarrow> failure + json list" where
  "py_iter (JArr xs) = Inr xs"
| "py_iter (JStr s) = Inr (map (\<lambda>c. JStr [c]) s)"
| "py_iter (JObj kvs) = Inr (map (\<lambda>kv. JStr (fst kv)) kvs)"
| "py_iter _ = Inl (Raised TypeError)"

text \<open>The key under which a dict files a value: lists and dicts are unhashable, and
  \<^verbatim>\<open>True\<close> and \<^verbatim>\<open>False\<close> are the keys \<^verbatim>\<open>1\<close> and \<^verbatim>\<open>0\<close>.\<close>

fun dict_key :: "json \<Rightarrow> failure + json" where
  "dict_key (JArr xs) = Inl (Raised TypeError)"
| "dict_key (JObj kvs) = Inl (Raised TypeError)"
| "dict_key (JBool b) = Inr (JNum (if b then 1 else 0))"
| "dict_key v = Inr v"

text \<open>\<^verbatim>\<open>s.split(sep)\<close> with a one-character separator: one more segment than there are
  separators, never an empty list.\<close>

fun split :: "char \<Rightarrow> string \<Rightarrow> string list" where
  "split sep [] = [[]]"
| "split sep (c # cs) =
     (if c = sep then [] # split sep cs
      else (case split sep cs of [] \<Rightarrow> [[c]] | w # ws \<Rightarrow> (c # w) # ws))"

section \<open>The schema index\<close>

definition primitive_types :: "string list" where
  "primitive_types =
     [''text'', ''string'', ''int'', ''boolean'', ''number'', ''date'', ''geoCoordinates'',
      ''phoneNumber'']"

text \<open>\<^verbatim>\<open>data_type in [...]\<close> compares with \<^verbatim>\<open>==\<close>: only a string equals a string.\<close>

definition is_primitive_prop :: "json \<Rightarrow> bool" where
  "is_primitive_prop data_type = (data_type \<in> set (map JStr primitive_types))"

text \<open>The loop of \<^verbatim>\<open>_get_schema_properties\<close>, with the two lists it appends to.\<close>

fun get_schema_properties_loop ::
  "json list \<Rightarrow> json list \<Rightarrow> json list \<Rightarrow> failure + (json list \<times> json list)" where
  "get_schema_properties_loop [] prim ref = Inr (prim, ref)"
| "get_schema_properties_loop (property # rest) prim ref =
     (case subscript_key property ''dataType'' of
        Inl e \<Rightarrow> Inl e
      | Inr dt \<Rightarrow>
          (case subscript_zero dt of
             Inl e \<Rightarrow> Inl e
           | Inr tag \<Rightarrow>
               (case subscript_key property ''name'' of
                  Inl e \<Rightarrow> Inl e
                | Inr name \<Rightarrow>
                    if is_primitive_prop tag
                    then get_schema_properties_loop rest (prim @ [name]) ref
                    else get_schema_properties_loop rest prim (ref @ [name]))))"

definition get_schema_properties :: "json \<Rightarrow> failure + (json list \<times> json list)" where
  "get_schema_properties properties =
     (case py_iter properties of
        Inl e \<Rightarrow> Inl e
      | Inr ps \<Rightarrow> get_schema_properties_loop ps [] [])"

text \<open>An entry of the dissected schema, \<^verbatim>\<open>{'primitive': prim, 'ref': ref}\<close>.\<close>

record schema_entry =
  primitive :: "json list"
  ref :: "json list"

type_synonym schema_definition = "(json \<times> schema_entry) list"

fun dissect_schema_loop :: "json list \<Rightarrow> schema_definition \<Rightarrow> failure + schema_definition" where
  "dissect_schema_loop [] dissected = Inr dissected"
| "dissect_schema_loop (cls # rest) dissected =
     (case subscript_key cls ''properties'' of
        Inl e \<Rightarrow> Inl e
      | Inr properties \<Rightarrow>
          (case get_schema_properties properties of
             Inl e \<Rightarrow> Inl e
           | Inr (prim, rf) \<Rightarrow>
               (case subscript_key cls ''class'' of
                  Inl e \<Rightarrow> Inl e
                | Inr name \<Rightarrow>
                    (case dict_key name of
                       Inl e \<Rightarrow> Inl e
                     | Inr k \<Rightarrow>
                         dissect_schema_loop rest
                           (AList.update k \<lparr>primitive = prim, ref = rf\<rparr> dissected)))))"

definition dissect_schema :: "json \<Rightarrow> failure + schema_definition" where
  "dissect_schema schema =
     (case dict_get schema ''classes'' (JArr []) of
        Inl e \<Rightarrow> Inl e
      | Inr classes \<Rightarrow>
          (case py_iter classes of
             Inl e \<Rightarrow> Inl e
           | Inr cs \<Rightarrow> dissect_schema_loop cs []))"

text \<open>\<^verbatim>\<open>self.schema.get(obj_class_name)\<close> on the dissected schema.\<close>

definition schema_lookup :: "schema_definition \<Rightarrow> json \<Rightarrow> failure + schema_entry option" where
  "schema_lookup dissected name =
     (case dict_key name of Inl e \<Rightarrow> Inl e | Inr k \<Rightarrow> Inr (map_of dissected k))"

section \<open>Validating and splitting the data\<close>

text \<open>The keyword arguments of \<^verbatim>\<open>add_data_object\<close> (\<^verbatim>\<open>import_object_parameter\<close>; the key
  \<^verbatim>\<open>vector\<close> is there only when the object carries one) and of \<^verbatim>\<open>add_reference\<close>.\<close>

record import_object =
  class_name :: json
  uuid :: json
  data_object :: "(string \<times> json) list"
  vector :: "json option"

record ref_batch_parameters =
  from_object_uuid :: json
  from_object_class_name :: json
  from_property_name :: string
  to_object_uuid :: string

text \<open>\<^verbatim>\<open>b.split('/')\<close>: only a string has the method.\<close>

fun str_split :: "json \<Rightarrow> failure + string list" where
  "str_split (JStr s) = Inr (split CHR ''/'' s)"
| "str_split _ = Inl (Raised AttributeError)"

text \<open>\<^verbatim>\<open>xs[-1]\<close>.\<close>

fun subscript_last :: "'a list \<Rightarrow> failure + 'a" where
  "subscript_last [] = Inl (Raised IndexError)"
| "subscript_last (x # xs) = Inr (last (x # xs))"

fun dissect_reference_loop ::
  "json list \<Rightarrow> json \<Rightarrow> json \<Rightarrow> string \<Rightarrow> ref_batch_parameters list
     \<Rightarrow> failure + ref_batch_parameters list" where
  "dissect_reference_loop [] from_class from_id from_prop result = Inr result"
| "dissect_reference_loop (r # rest) from_class from_id from_prop result =
     (case dict_get r ''beacon'' (JStr ''e'') of
        Inl e \<Rightarrow> Inl e
      | Inr beacon \<Rightarrow>
          (case str_split beacon of
             Inl e \<Rightarrow> Inl e
           | Inr beacon_split \<Rightarrow>
               (case subscript_last beacon_split of
                  Inl e \<Rightarrow> Inl e
                | Inr target \<Rightarrow>
                    dissect_reference_loop rest from_class from_id from_prop
                      (result @ [\<lparr>from_object_uuid = from_id,
                                  from_object_class_name = from_class,
                                  from_property_name = from_prop,
                                  to_object_uuid = target\<rparr>]))))"

definition dissect_reference ::
  "json \<Rightarrow> json \<Rightarrow> json \<Rightarrow> string \<Rightarrow> failure + ref_batch_parameters list" where
  "dissect_reference refs from_class from_id from_prop =
     (case py_iter refs of
        Inl e \<Rightarrow> Inl e
      | Inr rs \<Rightarrow> dissect_reference_loop rs from_class from_id from_prop [])"

text \<open>The state of a \<^verbatim>\<open>ValidateAndSplitData\<close> instance.\<close>

record vasd =
  data :: json
  schema :: schema_definition
  data_objects :: "import_object list"
  data_references :: "ref_batch_parameters list"

definition init_vasd :: "json \<Rightarrow> json \<Rightarrow> failure + vasd" where
  "init_vasd d remote_schema =
     (case dissect_schema remote_schema of
        Inl e \<Rightarrow> Inl e
      | Inr dissected \<Rightarrow>
          Inr \<lparr>data = d, schema = dissected, data_objects = [], data_references = []\<rparr>)"

text \<open>\<^verbatim>\<open>_exit_validation_failed\<close> prints its line and leaves with \<^verbatim>\<open>sys.exit(1)\<close>.\<close>

definition exit_validation_failed :: "reason \<Rightarrow> printed list \<times> failure" where
  "exit_validation_failed why = ([PrintValidationFailed why], SysExit 1)"

text \<open>\<^verbatim>\<open>d.items()\<close>.\<close>

fun dict_items :: "json \<Rightarrow> failure + (string \<times> json) list" where
  "dict_items (JObj kvs) = Inr kvs"
| "dict_items _ = Inl (Raised AttributeError)"

text \<open>The loop of \<^verbatim>\<open>_validate_obj\<close> over the properties of the object. It carries the
  \<^verbatim>\<open>data_object\<close> dict it fills and \<^verbatim>\<open>self.data_references\<close>, and gives back what was
  printed, how the loop ended (\<open>None\<close>: it ran to its end) and the two as they are then.\<close>

fun validate_props ::
  "schema_entry \<Rightarrow> json \<Rightarrow> json \<Rightarrow> (string \<times> json) list
     \<Rightarrow> (string \<times> json) list \<Rightarrow> ref_batch_parameters list
     \<Rightarrow> printed list \<times> failure option \<times> (string \<times> json) list \<times> ref_batch_parameters list"
  where
  "validate_props sd cn oid [] dobj refs = ([], None, dobj, refs)"
| "validate_props sd cn oid ((name, val) # rest) dobj refs =
     (if JStr name \<in> set (primitive sd)
      then validate_props sd cn oid rest (AList.update name val dobj) refs
      else if JStr name \<in> set (ref sd)
      then (case dissect_reference val cn oid name of
              Inl e \<Rightarrow> ([], Some e, dobj, refs)
            | Inr ref_parameters \<Rightarrow>
                validate_props sd cn oid rest dobj (refs @ ref_parameters))
      else (fst (exit_validation_failed (PropertyNotInSchema name cn)),
            Some (snd (exit_validation_failed (PropertyNotInSchema name cn))), dobj, refs))"

definition validate_obj :: "vasd \<Rightarrow> json \<Rightarrow> printed list \<times> failure option \<times> vasd" where
  "validate_obj self obj =
     (case dict_get obj ''class'' JNull of
        Inl e \<Rightarrow> ([], Some e, self)
      | Inr obj_class_name \<Rightarrow>
     (case schema_lookup (schema self) obj_class_name of
        Inl e \<Rightarrow> ([], Some e, self)
      | Inr schema_definition \<Rightarrow>
     (case dict_get obj ''id'' JNull of
        Inl e \<Rightarrow> ([], Some e, self)
      | Inr object_id \<Rightarrow>
     (case schema_definition of
        None \<Rightarrow>
          (fst (exit_validation_failed (ClassNotInSchema obj_class_name)),
           Some (snd (exit_validation_failed (ClassNotInSchema obj_class_name))), self)
      | Some sd \<Rightarrow>
     (case dict_get obj ''vector'' JNull of
        Inl e \<Rightarrow> ([], Some e, self)
      | Inr vec \<Rightarrow>
     (case dict_get obj ''properties'' (JObj []) of
        Inl e \<Rightarrow> ([], Some e, self)
      | Inr props \<Rightarrow>
     (case dict_items props of
        Inl e \<Rightarrow> ([], Some e, self)
      | Inr items \<Rightarrow>
     (case validate_props sd obj_class_name object_id items [] (data_references self) of
        (out, Some e, dobj, refs) \<Rightarrow> (out, Some e, self\<lparr>data_references := refs\<rparr>)
      | (out, None, dobj, refs) \<Rightarrow>
          (out, None,
           self\<lparr>data_references := refs,
                data_objects := data_objects self @
                  [\<lparr>class_name = obj_class_name, uuid = object_id, data_object = dobj,
                    vector = (if vec = JNull then None else Some vec)\<rparr>]\<rparr>)))))))))"

fun validate_loop :: "vasd \<Rightarrow> json list \<Rightarrow> printed list \<times> failure option \<times> vasd" where
  "validate_loop self [] = ([], None, self)"
| "validate_loop self (obj # rest) =
     (case validate_obj self obj of
        (out, Some e, self') \<Rightarrow> (out, Some e, self')
      | (out, None, self') \<Rightarrow>
          (case validate_loop self' rest of (out', r, self'') \<Rightarrow> (out @ out', r, self'')))"

definition validate_and_split :: "vasd \<Rightarrow> printed list \<times> failure option \<times> vasd" where
  "validate_and_split self =
     (case dict_get (data self) ''classes'' (JArr []) of
        Inl e \<Rightarrow> ([], Some e, self)
      | Inr classes \<Rightarrow>
          (case py_iter classes of
             Inl e \<Rightarrow> ([], Some e, self)
           | Inr objs \<Rightarrow> validate_loop self objs))"

section \<open>The import run and the bulk delete\<close>

text \<open>\<^verbatim>\<open>DataFileImporter._exit_on_error\<close>, the callback the batcher calls with the results of
  a batch: what it prints, and how it ends (\<open>None\<close>: it returns).\<close>

fun exit_on_error_loop :: "bool \<Rightarrow> json list \<Rightarrow> printed list \<times> failure option" where
  "exit_on_error_loop fail_on_error [] = ([], None)"
| "exit_on_error_loop fail_on_error (entry # rest) =
     (case dict_get entry ''result'' (JObj []) of
        Inl e \<Rightarrow> ([], Some e)
      | Inr result \<Rightarrow>
          (case dict_get result ''errors'' JNull of
             Inl e \<Rightarrow> ([], Some e)
           | Inr error \<Rightarrow>
               if error \<noteq> JNull
               then (if fail_on_error then ([PrintValue error], Some (SysExit 1))
                     else (case exit_on_error_loop fail_on_error rest of
                             (out, r) \<Rightarrow> (PrintValue error # out, r)))
               else exit_on_error_loop fail_on_error rest))"

definition exit_on_error :: "bool \<Rightarrow> json \<Rightarrow> printed list \<times> failure option" where
  "exit_on_error fail_on_error batch_results =
     (case py_iter batch_results of
        Inl e \<Rightarrow> ([], Some e)
      | Inr entries \<Rightarrow> exit_on_error_loop fail_on_error entries)"

text \<open>What a run does that can be seen from outside, in order: the calls to the schema
  service, the calls to the batcher, what is printed, the question put to the user.\<close>

datatype event =
    SchemaGet
  | SchemaDeleteAll
  | SchemaCreate json
  | AddDataObject import_object
  | AddReference ref_batch_parameters
  | Flush
  | Print printed
  | Ask string

text \<open>The batcher is the weaviate client's (\<^verbatim>\<open>client.batch(batch_size=512, callback=...)\<close>):
  it decides when a batch is sent and calls the callback with the results of each batch
  sent. It is a parameter here: from the calls made to it so far, the last one being the
  current call, the results of the batches it sends during that call, in order. The schema
  service is a parameter in the same way, by the schema it returns. What the client does
  inside a call, and an exception it may raise there, is outside this file.\<close>

type_synonym batcher = "event list \<Rightarrow> json list"

fun run_callbacks :: "bool \<Rightarrow> json list \<Rightarrow> printed list \<times> failure option" where
  "run_callbacks fail_on_error [] = ([], None)"
| "run_callbacks fail_on_error (batch_results # later) =
     (case exit_on_error fail_on_error batch_results of
        (out, Some e) \<Rightarrow> (out, Some e)
      | (out, None) \<Rightarrow>
          (case run_callbacks fail_on_error later of (out', r) \<Rightarrow> (out @ out', r)))"

text \<open>The calls of \<^verbatim>\<open>load\<close> to the batcher, one after the other; \<open>made\<close> are the calls
  already made.\<close>

fun upload :: "bool \<Rightarrow> batcher \<Rightarrow> event list \<Rightarrow> event list \<Rightarrow> event list \<times> failure option" where
  "upload fail_on_error batcher made [] = ([], None)"
| "upload fail_on_error batcher made (call # calls) =
     (case run_callbacks fail_on_error (batcher (made @ [call])) of
        (out, Some e) \<Rightarrow> (call # map Print out, Some e)
      | (out, None) \<Rightarrow>
          (case upload fail_on_error batcher (made @ [call]) calls of
             (trace, r) \<Rightarrow> (call # map Print out @ trace, r)))"

text \<open>\<^verbatim>\<open>DataFileImporter.load\<close>, on the schema the service returns and the data read by
  \<^verbatim>\<open>__init__\<close>.\<close>

definition load :: "json \<Rightarrow> json \<Rightarrow> bool \<Rightarrow> batcher \<Rightarrow> event list \<times> failure option" where
  "load remote_schema d fail_on_error batcher =
     (case init_vasd d remote_schema of
        Inl e \<Rightarrow> ([SchemaGet, Print (PrintText ''Validating data'')], Some e)
      | Inr v \<Rightarrow>
          (case validate_and_split v of
             (out, Some e, v') \<Rightarrow>
               ([SchemaGet, Print (PrintText ''Validating data'')] @ map Print out, Some e)
           | (out, None, v') \<Rightarrow>
               (case upload fail_on_error batcher []
                       (map AddDataObject (data_objects v') @
                        map AddReference (data_references v') @ [Flush]) of
                  (trace, r) \<Rightarrow>
                    ([SchemaGet, Print (PrintText ''Validating data'')] @ map Print out @
                     [Print (PrintText ''Importing data'')] @ trace, r))))"

text \<open>\<^verbatim>\<open>import_data_from_file\<close>: the constructor of \<^verbatim>\<open>DataFileImporter\<close> opens the file and
  reads it with \<^verbatim>\<open>json.load\<close>, whose outcome is the parameter \<open>parsed\<close>; then \<^verbatim>\<open>load\<close>.\<close>

definition import_data_from_file ::
  "failure + json \<Rightarrow> json \<Rightarrow> bool \<Rightarrow> batcher \<Rightarrow> event list \<times> failure option" where
  "import_data_from_file parsed remote_schema fail_on_error batcher =
     (case parsed of
        Inl e \<Rightarrow> ([], Some e)
      | Inr d \<Rightarrow> load remote_schema d fail_on_error batcher)"

text \<open>\<^verbatim>\<open>_delete_all\<close> and \<^verbatim>\<open>delete_all_data\<close>; \<open>answer\<close> is what \<^verbatim>\<open>is_question_answer_yes\<close>
  returns.\<close>

definition delete_all :: "json \<Rightarrow> event list" where
  "delete_all remote_schema = [SchemaGet, SchemaDeleteAll, SchemaCreate remote_schema]"

definition delete_all_data :: "json \<Rightarrow> bool \<Rightarrow> bool \<Rightarrow> event list \<times> failure option" where
  "delete_all_data remote_schema force answer =
     (if force then (delete_all remote_schema, Some (SysExit 0))
      else if \<not> answer
      then ([Ask ''Do you really want to delete all data?''], Some (SysExit 0))
      else (Ask ''Do you really want to delete all data?'' # delete_all remote_schema, None))"

text \<open>The status the process ends with: 0 when the command returns.\<close>

fun process_status :: "failure option \<Rightarrow> nat" where
  "process_status None = 0"
| "process_status (Some f) = exit_status f"

section \<open>Notions used to state the properties\<close>

text \<open>The beacon of a reference descriptor as \<^verbatim>\<open>dissect_reference\<close> reads it, when it is a
  string: the value under \<^verbatim>\<open>beacon\<close>, and \<^verbatim>\<open>'e'\<close> when the descriptor has no such key.\<close>

definition descriptor_beacon :: "json \<Rightarrow> string option" where
  "descriptor_beacon r =
     (case dict_get r ''beacon'' (JStr ''e'') of Inr (JStr b) \<Rightarrow> Some b | _ \<Rightarrow> None)"

definition reference_record :: "json \<Rightarrow> json \<Rightarrow> string \<Rightarrow> json \<Rightarrow> ref_batch_parameters" where
  "reference_record from_class from_id from_prop r =
     \<lparr>from_object_uuid = from_id, from_object_class_name = from_class,
      from_property_name = from_prop,
      to_object_uuid =
        last (split CHR ''/'' (case descriptor_beacon r of Some b \<Rightarrow> b | None \<Rightarrow> []))\<rparr>"

text \<open>The calls to the schema service, and the questions put to the user, among the events
  of a run.\<close>

fun is_schema_call :: "event \<Rightarrow> bool" where
  "is_schema_call SchemaGet = True"
| "is_schema_call SchemaDeleteAll = True"
| "is_schema_call (SchemaCreate s) = True"
| "is_schema_call _ = False"

fun is_question :: "event \<Rightarrow> bool" where
  "is_question (Ask q) = True"
| "is_question _ = False"

text \<open>What \<^verbatim>\<open>_exit_on_error\<close> reads from an entry of the batch results,
  \<^verbatim>\<open>entry.get('result', {}).get('errors')\<close>, and the errors of a batch: the values read that
  are not \<^verbatim>\<open>None\<close>, in the order of the entries.\<close>

definition entry_error :: "json \<Rightarrow> failure + json" where
  "entry_error entry =
     (case dict_get entry ''result'' (JObj []) of
        Inl e \<Rightarrow> Inl e
      | Inr result \<Rightarrow> dict_get result ''errors'' JNull)"

definition entry_errors :: "json list \<Rightarrow> json list" where
  "entry_errors entries =
     filter (\<lambda>v. v \<noteq> JNull)
       (map (\<lambda>e. case entry_error e of Inr v \<Rightarrow> v | Inl _ \<Rightarrow> JNull) entries)"

text \<open>What \<^verbatim>\<open>_get_schema_properties\<close> reads from a property descriptor:
  \<^verbatim>\<open>property_["dataType"][0]\<close> and \<^verbatim>\<open>property_['name']\<close>.\<close>

definition property_tag :: "json \<Rightarrow> failure + json" where
  "property_tag p =
     (case subscript_key p ''dataType'' of Inl e \<Rightarrow> Inl e | Inr dt \<Rightarrow> subscript_zero dt)"

definition property_ok :: "json \<Rightarrow> bool" where
  "property_ok p = (\<not> isl (property_tag p) \<and> \<not> isl (subscript_key p ''name''))"

definition property_name :: "json \<Rightarrow> json" where
  "property_name p = projr (subscript_key p ''name'')"

definition property_is_primitive :: "json \<Rightarrow> bool" where
  "property_is_primitive p = is_primitive_prop (projr (property_tag p))"

text \<open>What \<^verbatim>\<open>dissect_schema\<close> reads from a class descriptor: the property descriptors
  \<^verbatim>\<open>class_['properties']\<close> as the loop goes through them, and \<^verbatim>\<open>class_['class']\<close> as the
  key of the dissected schema.\<close>

definition class_properties :: "json \<Rightarrow> failure + json list" where
  "class_properties c =
     (case subscript_key c ''properties'' of Inl e \<Rightarrow> Inl e | Inr ps \<Rightarrow> py_iter ps)"

definition class_key :: "json \<Rightarrow> failure + json" where
  "class_key c =
     (case subscript_key c ''class'' of Inl e \<Rightarrow> Inl e | Inr name \<Rightarrow> dict_key name)"

definition class_ok :: "json \<Rightarrow> bool" where
  "class_ok c =
     ((case class_properties c of Inl e \<Rightarrow> False | Inr ps \<Rightarrow> list_all property_ok ps)
      \<and> \<not> isl (class_key c))"

text \<open>The entry a class descriptor gets: the names of its properties with a primitive
  first data type, and the names of the others.\<close>

definition class_entry :: "json \<Rightarrow> schema_entry" where
  "class_entry c =
     \<lparr>primitive = map property_name (filter property_is_primitive (projr (class_properties c))),
      ref = map property_name
              (filter (\<lambda>p. \<not> property_is_primitive p) (projr (class_properties c)))\<rparr>"

text \<open>The class descriptors of a schema document, \<^verbatim>\<open>schema.get('classes', [])\<close> as the loop
  goes through it, and the documents all of whose descriptors can be read.\<close>

definition schema_classes :: "json \<Rightarrow> failure + json list" where
  "schema_classes s =
     (case dict_get s ''classes'' (JArr []) of Inl e \<Rightarrow> Inl e | Inr cl \<Rightarrow> py_iter cl)"

definition schema_ok :: "json \<Rightarrow> bool" where
  "schema_ok s = (case schema_classes s of Inl e \<Rightarrow> False | Inr cs \<Rightarrow> list_all class_ok cs)"


text \<open>The number of descriptors \<^verbatim>\<open>dissect_reference\<close> finds in a value.\<close>

definition descriptor_count :: "json \<Rightarrow> nat" where
  "descriptor_count v = (case py_iter v of Inl e \<Rightarrow> 0 | Inr ds \<Rightarrow> length ds)"

text \<open>How \<^verbatim>\<open>_validate_obj\<close> sorts a property of an object against the entry of its class:
  the first test is the primitive list, the second the reference list.\<close>

definition is_primitive_property :: "schema_entry \<Rightarrow> string \<times> json \<Rightarrow> bool" where
  "is_primitive_property sd p = (JStr (fst p) \<in> set (primitive sd))"

definition is_reference_property :: "schema_entry \<Rightarrow> string \<times> json \<Rightarrow> bool" where
  "is_reference_property sd p =
     (JStr (fst p) \<notin> set (primitive sd) \<and> JStr (fst p) \<in> set (ref sd))"



text \<open>The calls to the batcher among the events of a run, and the objects of the input
  document, \<^verbatim>\<open>self.data.get("classes", [])\<close> as the loop of \<^verbatim>\<open>validate_and_split\<close> goes
  through it.\<close>

fun is_write :: "event \<Rightarrow> bool" where
  "is_write (AddDataObject obj) = True"
| "is_write (AddReference r) = True"
| "is_write Flush = True"
| "is_write _ = False"

definition document_objects :: "json \<Rightarrow> failure + json list" where
  "document_objects d =
     (case dict_get d ''classes'' (JArr []) of Inl e \<Rightarrow> Inl e | Inr classes \<Rightarrow> py_iter classes)"

section \<open>Splitting a beacon\<close>

lemma split_nonempty: "split sep s \<noteq> []"
  by (induction s) (auto split: list.splits)

lemma subscript_last_split: "subscript_last (split sep s) = Inr (last (split sep s))"
  by (cases "split sep s") (simp_all add: split_nonempty)

lemma length_split: "length (split sep s) = Suc (length (filter (\<lambda>c. c = sep) s))"
  by (induction s) (auto split: list.splits)

lemma split_no_sep: "sep \<notin> set s \<Longrightarrow> split sep s = [s]"
  by (induction s) auto

lemma last_split_Cons:
  assumes "c \<noteq> sep" and "sep \<in> set s"
  shows "last (split sep (c # s)) = last (split sep s)"
proof -
  from assms(2) have "filter (\<lambda>c. c = sep) s \<noteq> []"
    by (auto simp: filter_empty_conv)
  then have "2 \<le> length (split sep s)"
    by (cases "filter (\<lambda>c. c = sep) s") (simp_all add: length_split)
  then obtain w v ws where "split sep s = w # v # ws"
    by (cases "split sep s"; cases "tl (split sep s)") auto
  then show ?thesis using assms(1) by simp
qed

lemma last_split_append: "sep \<notin> set ys \<Longrightarrow> last (split sep (xs @ sep # ys)) = ys"
proof (induction xs)
  case Nil
  then show ?case by (simp add: split_no_sep)
next
  case (Cons x xs)
  show ?case
  proof (cases "x = sep")
    case True
    then show ?thesis using Cons split_nonempty [of sep "xs @ sep # ys"] by simp
  next
    case False
    then have "last (split sep (x # (xs @ sep # ys))) = last (split sep (xs @ sep # ys))"
      by (intro last_split_Cons) simp_all
    then show ?thesis using Cons by simp
  qed
qed

section \<open>Reference dissection\<close>

lemma dissect_reference_loop_ok:
  "\<forall>r\<in>set rs. descriptor_beacon r \<noteq> None \<Longrightarrow>
   dissect_reference_loop rs fc fid fp acc = Inr (acc @ map (reference_record fc fid fp) rs)"
proof (induction rs arbitrary: acc)
  case Nil
  show ?case by simp
next
  case (Cons r rs)
  from Cons.prems obtain b where b: "dict_get r ''beacon'' (JStr ''e'') = Inr (JStr b)"
    by (auto simp: descriptor_beacon_def split: sum.splits json.splits)
  have "descriptor_beacon r = Some b" using b by (simp add: descriptor_beacon_def)
  then show ?case using Cons b
    by (simp add: subscript_last_split reference_record_def)
qed

lemma dissect_reference_ok:
  "\<forall>r\<in>set rs. descriptor_beacon r \<noteq> None \<Longrightarrow>
   dissect_reference (JArr rs) fc fid fp = Inr (map (reference_record fc fid fp) rs)"
  by (simp add: dissect_reference_def dissect_reference_loop_ok)

text \<open>
  C4. In a reference-valued property whose descriptors all have a readable beacon, the
  record produced for a descriptor with the beacon string \<open>b\<close> has the id, class and property
  of the enclosing object as its source and the last segment of \<open>b\<close> split on \<open>/\<close> as its
  target: the part of \<open>b\<close> after its last \<open>/\<close>, and the whole of \<open>b\<close> when it has none.
\<close>

theorem dissect_reference_target:
  assumes "\<forall>r\<in>set rs. descriptor_beacon r \<noteq> None"
    and "i < length rs"
    and "rs ! i = JObj kvs"
    and "map_of kvs ''beacon'' = Some (JStr b)"
  shows "\<exists>out. dissect_reference (JArr rs) from_class from_id from_prop = Inr out
           \<and> length out = length rs
           \<and> out ! i = \<lparr>from_object_uuid = from_id, from_object_class_name = from_class,
                        from_property_name = from_prop,
                        to_object_uuid = last (split CHR ''/'' b)\<rparr>
           \<and> (CHR ''/'' \<notin> set b \<longrightarrow> last (split CHR ''/'' b) = b)
           \<and> (\<forall>xs ys. b = xs @ CHR ''/'' # ys \<and> CHR ''/'' \<notin> set ys
                 \<longrightarrow> last (split CHR ''/'' b) = ys)"
proof -
  have "descriptor_beacon (rs ! i) = Some b"
    using assms(3,4) by (simp add: descriptor_beacon_def)
  then have "map (reference_record from_class from_id from_prop) rs ! i =
      \<lparr>from_object_uuid = from_id, from_object_class_name = from_class,
       from_property_name = from_prop, to_object_uuid = last (split CHR ''/'' b)\<rparr>"
    using assms(2) by (simp add: reference_record_def)
  then show ?thesis
    using dissect_reference_ok [OF assms(1)]
    by (simp add: split_no_sep last_split_append)
qed

theorem dissect_reference_target_witness:
  "\<exists>out. dissect_reference
      (JArr [JObj [(''beacon'', JStr ''weaviate://localhost/SomeClass/abc-123'')]])
      (JStr ''Doc'') (JStr ''x1'') ''refs'' = Inr out
    \<and> length out = 1
    \<and> out ! 0 = \<lparr>from_object_uuid = JStr ''x1'', from_object_class_name = JStr ''Doc'',
                  from_property_name = ''refs'', to_object_uuid = ''abc-123''\<rparr>"
  using dissect_reference_target
    [of "[JObj [(''beacon'', JStr ''weaviate://localhost/SomeClass/abc-123'')]]" 0
        "[(''beacon'', JStr ''weaviate://localhost/SomeClass/abc-123'')]"
        "''weaviate://localhost/SomeClass/abc-123''" "JStr ''Doc''" "JStr ''x1''" "''refs''"]
  by (auto simp add: descriptor_beacon_def)

text \<open>
  C10. In a reference-valued property whose descriptors all have a readable beacon, a
  descriptor with no \<open>beacon\<close> key at all does not make the dissection fail: its record has
  the target \<open>e\<close>, the last segment of the default \<^verbatim>\<open>'e'\<close> of \<^verbatim>\<open>ref.get('beacon', 'e')\<close>.
\<close>

theorem dissect_reference_missing_beacon:
  assumes "\<forall>r\<in>set rs. descriptor_beacon r \<noteq> None"
    and "i < length rs"
    and "rs ! i = JObj kvs"
    and "map_of kvs ''beacon'' = None"
  shows "descriptor_beacon (rs ! i) \<noteq> None
       \<and> (\<exists>out. dissect_reference (JArr rs) from_class from_id from_prop = Inr out
           \<and> length out = length rs
           \<and> out ! i = \<lparr>from_object_uuid = from_id, from_object_class_name = from_class,
                        from_property_name = from_prop, to_object_uuid = ''e''\<rparr>)"
proof -
  have "descriptor_beacon (rs ! i) = Some ''e''"
    using assms(3,4) by (simp add: descriptor_beacon_def)
  then have "map (reference_record from_class from_id from_prop) rs ! i =
      \<lparr>from_object_uuid = from_id, from_object_class_name = from_class,
       from_property_name = from_prop, to_object_uuid = ''e''\<rparr>"
    using assms(2) by (simp add: reference_record_def)
  then show ?thesis
    using dissect_reference_ok [OF assms(1)] \<open>descriptor_beacon (rs ! i) = Some ''e''\<close>
    by simp
qed

theorem dissect_reference_missing_beacon_witness:
  "\<exists>out. dissect_reference (JArr [JObj [(''href'', JStr ''/v1/objects/y1'')]])
      (JStr ''Doc'') (JStr ''x1'') ''refs'' = Inr out
    \<and> length out = 1
    \<and> out ! 0 = \<lparr>from_object_uuid = JStr ''x1'', from_object_class_name = JStr ''Doc'',
                  from_property_name = ''refs'', to_object_uuid = ''e''\<rparr>"
  using dissect_reference_missing_beacon
    [of "[JObj [(''href'', JStr ''/v1/objects/y1'')]]" 0 "[(''href'', JStr ''/v1/objects/y1'')]"
        "JStr ''Doc''" "JStr ''x1''" "''refs''"]
  by (simp add: descriptor_beacon_def)

section \<open>Bulk delete\<close>

text \<open>
  C9. \<^verbatim>\<open>delete_all_data\<close> calls the schema service exactly when the force flag is set or
  the user answers yes, and then it makes three calls in this order: it gets the schema,
  deletes all classes, and creates the schema it got. Otherwise it makes no call to the
  schema service and leaves with \<^verbatim>\<open>sys.exit(0)\<close>. The process ends with status 0 in every
  case, and the question is put to the user exactly when the force flag is not set.
\<close>

theorem delete_all_data_sequence:
  "filter is_schema_call (fst (delete_all_data remote_schema force answer)) =
     (if force \<or> answer then [SchemaGet, SchemaDeleteAll, SchemaCreate remote_schema] else [])
   \<and> (\<not> (force \<or> answer) \<longrightarrow>
        snd (delete_all_data remote_schema force answer) = Some (SysExit 0))
   \<and> process_status (snd (delete_all_data remote_schema force answer)) = 0
   \<and> (filter is_question (fst (delete_all_data remote_schema force answer)) = [] \<longleftrightarrow> force)"
  by (simp add: delete_all_data_def delete_all_def)

theorem delete_all_data_sequence_witness:
  "filter is_schema_call (fst (delete_all_data (JObj [(''classes'', JArr [])]) False True)) =
     [SchemaGet, SchemaDeleteAll, SchemaCreate (JObj [(''classes'', JArr [])])]
   \<and> filter is_schema_call (fst (delete_all_data (JObj [(''classes'', JArr [])]) False False)) = []
   \<and> snd (delete_all_data (JObj [(''classes'', JArr [])]) False False) = Some (SysExit 0)"
  using delete_all_data_sequence [of "JObj [(''classes'', JArr [])]" False True]
    delete_all_data_sequence [of "JObj [(''classes'', JArr [])]" False False]
  by simp

section \<open>The error callback of the batcher\<close>

lemma exit_on_error_loop_continue:
  "\<forall>e\<in>set entries. \<exists>err. entry_error e = Inr err \<Longrightarrow>
   exit_on_error_loop False entries = (map PrintValue (entry_errors entries), None)"
proof (induction entries)
  case Nil
  show ?case by (simp add: entry_errors_def)
next
  case (Cons e entries)
  then obtain err where "entry_error e = Inr err" by auto
  then show ?case using Cons
    by (auto simp: entry_error_def entry_errors_def split: sum.splits)
qed

lemma exit_on_error_loop_clean:
  "\<forall>e\<in>set pre. entry_error e = Inr JNull \<Longrightarrow>
   exit_on_error_loop fail (pre @ rest) = exit_on_error_loop fail rest"
  by (induction pre) (auto simp: entry_error_def split: sum.splits)

lemma exit_on_error_loop_first:
  "entry_error e = Inr err \<Longrightarrow> err \<noteq> JNull \<Longrightarrow>
   exit_on_error_loop True (e # post) = ([PrintValue err], Some (SysExit 1))"
  by (auto simp: entry_error_def split: sum.splits)

text \<open>
  C5. The callback on the results of a batch whose entries are dicts with a dict (or
  nothing) under \<open>result\<close>. With fail-on-error disabled it prints the error of every entry
  that has one, in order, returns, and the results of the later batches are inspected in
  the same way. With fail-on-error enabled it prints the error of the first entry that has
  one and leaves with \<^verbatim>\<open>sys.exit(1)\<close>: whatever the remaining entries \<open>post\<close> of the batch
  and the later batches are, they are not read, and the upload makes no further call to the
  batcher. A batch without errors prints nothing and the callback returns.
\<close>

theorem exit_on_error_reports:
  "((\<forall>e\<in>set entries. \<exists>err. entry_error e = Inr err) \<longrightarrow>
      exit_on_error False (JArr entries) = (map PrintValue (entry_errors entries), None)
    \<and> run_callbacks False (JArr entries # later) =
        (map PrintValue (entry_errors entries) @ fst (run_callbacks False later),
         snd (run_callbacks False later)))
   \<and> ((\<forall>e\<in>set pre. entry_error e = Inr JNull) \<and> entry_error entry = Inr err \<and> err \<noteq> JNull \<longrightarrow>
      exit_on_error True (JArr (pre @ entry # post)) = ([PrintValue err], Some (SysExit 1))
    \<and> run_callbacks True (JArr (pre @ entry # post) # later) =
        ([PrintValue err], Some (SysExit 1))
    \<and> (batcher (made @ [call]) = JArr (pre @ entry # post) # later \<longrightarrow>
         upload True batcher made (call # calls) =
           ([call, Print (PrintValue err)], Some (SysExit 1)))
    \<and> exit_status (SysExit 1) = 1)
   \<and> ((\<forall>e\<in>set entries. entry_error e = Inr JNull) \<longrightarrow>
      exit_on_error True (JArr entries) = ([], None))"
proof (intro conjI impI)
  assume wf: "\<forall>e\<in>set entries. \<exists>err. entry_error e = Inr err"
  show a: "exit_on_error False (JArr entries) = (map PrintValue (entry_errors entries), None)"
    using wf by (simp add: exit_on_error_def exit_on_error_loop_continue)
  show "run_callbacks False (JArr entries # later) =
        (map PrintValue (entry_errors entries) @ fst (run_callbacks False later),
         snd (run_callbacks False later))"
    using a by (simp split: prod.splits)
next
  assume h: "(\<forall>e\<in>set pre. entry_error e = Inr JNull) \<and> entry_error entry = Inr err \<and> err \<noteq> JNull"
  show b: "exit_on_error True (JArr (pre @ entry # post)) = ([PrintValue err], Some (SysExit 1))"
    using h by (simp add: exit_on_error_def exit_on_error_loop_clean exit_on_error_loop_first
        del: exit_on_error_loop.simps)
  show c: "run_callbacks True (JArr (pre @ entry # post) # later) =
      ([PrintValue err], Some (SysExit 1))"
    using b by simp
  show "upload True batcher made (call # calls) =
           ([call, Print (PrintValue err)], Some (SysExit 1))"
    if "batcher (made @ [call]) = JArr (pre @ entry # post) # later"
    using c that by simp
  show "exit_status (SysExit 1) = 1" by simp
next
  assume "\<forall>e\<in>set entries. entry_error e = Inr JNull"
  then show "exit_on_error True (JArr entries) = ([], None)"
    using exit_on_error_loop_clean [of entries True "[]"] by (simp add: exit_on_error_def)
qed

theorem exit_on_error_reports_witness:
  "exit_on_error False
     (JArr [JObj [(''result'', JObj [])],
            JObj [(''result'', JObj [(''errors'', JStr ''no such class'')])],
            JObj [(''result'', JObj [(''errors'', JStr ''bad uuid'')])]]) =
     ([PrintValue (JStr ''no such class''), PrintValue (JStr ''bad uuid'')], None)
   \<and> exit_on_error True
     (JArr [JObj [(''result'', JObj [])],
            JObj [(''result'', JObj [(''errors'', JStr ''no such class'')])],
            JObj [(''result'', JObj [(''errors'', JStr ''bad uuid'')])]]) =
     ([PrintValue (JStr ''no such class'')], Some (SysExit 1))"
  using exit_on_error_reports
    [where entries = "[JObj [(''result'', JObj [])],
            JObj [(''result'', JObj [(''errors'', JStr ''no such class'')])],
            JObj [(''result'', JObj [(''errors'', JStr ''bad uuid'')])]]"
       and pre = "[JObj [(''result'', JObj [])]]"
       and entry = "JObj [(''result'', JObj [(''errors'', JStr ''no such class'')])]"
       and err = "JStr ''no such class''"
       and post = "[JObj [(''result'', JObj [(''errors'', JStr ''bad uuid'')])]]"]
  by (simp add: entry_error_def entry_errors_def)

section \<open>Properties of the schema index\<close>

lemma not_isl_iff: "(\<not> isl x) = (\<exists>y. x = Inr y)"
  by (cases x) auto

lemma get_schema_properties_loop_ok:
  "\<forall>p\<in>set ps. property_ok p \<Longrightarrow>
   get_schema_properties_loop ps prim rf =
     Inr (prim @ map property_name (filter property_is_primitive ps),
          rf @ map property_name (filter (\<lambda>p. \<not> property_is_primitive p) ps))"
proof (induction ps arbitrary: prim rf)
  case Nil
  show ?case by simp
next
  case (Cons p ps)
  from Cons.prems have "property_ok p" by simp
  then obtain dt t n where "subscript_key p ''dataType'' = Inr dt" "subscript_zero dt = Inr t"
    "subscript_key p ''name'' = Inr n"
    by (auto simp: property_ok_def property_tag_def not_isl_iff split: sum.splits)
  then show ?case using Cons
    by (simp add: property_name_def property_is_primitive_def property_tag_def)
qed

lemma get_schema_properties_loop_Inr:
  "get_schema_properties_loop ps prim rf = Inr r \<Longrightarrow> \<forall>p\<in>set ps. property_ok p"
proof (induction ps arbitrary: prim rf)
  case Nil
  show ?case by simp
next
  case (Cons p ps)
  from Cons.prems obtain dt t n where p: "subscript_key p ''dataType'' = Inr dt"
    "subscript_zero dt = Inr t" "subscript_key p ''name'' = Inr n"
    by (auto split: sum.splits)
  then have "property_ok p" by (simp add: property_ok_def property_tag_def)
  moreover have "\<forall>q\<in>set ps. property_ok q"
    using Cons.prems p Cons.IH by (auto split: if_splits)
  ultimately show ?case by simp
qed

lemma dissect_schema_loop_ok:
  "\<forall>c\<in>set cs. class_ok c \<Longrightarrow>
   dissect_schema_loop cs d =
     Inr (fold (\<lambda>c. AList.update (projr (class_key c)) (class_entry c)) cs d)"
proof (induction cs arbitrary: d)
  case Nil
  show ?case by simp
next
  case (Cons c cs)
  from Cons.prems have "class_ok c" by simp
  then obtain props ps name k where c: "subscript_key c ''properties'' = Inr props"
    "py_iter props = Inr ps" "\<forall>p\<in>set ps. property_ok p"
    "subscript_key c ''class'' = Inr name" "dict_key name = Inr k"
    by (auto simp: class_ok_def class_properties_def class_key_def list_all_iff not_isl_iff
        split: sum.splits)
  then show ?case using Cons
    by (simp add: get_schema_properties_def get_schema_properties_loop_ok class_entry_def
        class_properties_def class_key_def)
qed

lemma dissect_schema_loop_Inr:
  "dissect_schema_loop cs d = Inr d' \<Longrightarrow> \<forall>c\<in>set cs. class_ok c"
proof (induction cs arbitrary: d)
  case Nil
  show ?case by simp
next
  case (Cons c cs)
  from Cons.prems obtain props ps prim rf name k where c:
    "subscript_key c ''properties'' = Inr props" "py_iter props = Inr ps"
    "get_schema_properties_loop ps [] [] = Inr (prim, rf)"
    "subscript_key c ''class'' = Inr name" "dict_key name = Inr k"
    by (auto simp: get_schema_properties_def split: sum.splits prod.splits)
  have "\<forall>p\<in>set ps. property_ok p"
    using c(3) by (rule get_schema_properties_loop_Inr)
  then have "class_ok c"
    using c by (simp add: class_ok_def class_properties_def class_key_def list_all_iff)
  moreover have "dissect_schema_loop cs (AList.update k \<lparr>primitive = prim, ref = rf\<rparr> d) = Inr d'"
    using Cons.prems c by (simp add: get_schema_properties_def)
  then have "\<forall>c'\<in>set cs. class_ok c'"
    by (rule Cons.IH)
  ultimately show ?case by simp
qed

lemma map_of_fold_update:
  assumes "\<forall>c'\<in>set post. f c' \<noteq> f c"
  shows "map_of (fold (\<lambda>c. AList.update (f c) (g c)) (pre @ c # post) d) (f c) = Some (g c)"
proof -
  have keep: "map_of (fold (\<lambda>c. AList.update (f c) (g c)) post d') (f c) = map_of d' (f c)" for d'
    using assms by (induction post arbitrary: d') (auto simp: update_conv')
  show ?thesis by (simp add: keep update_conv')
qed

lemma dissect_schema_iff: "(\<exists>d. dissect_schema s = Inr d) \<longleftrightarrow> schema_ok s"
  by (auto simp: dissect_schema_def schema_ok_def schema_classes_def list_all_iff
      dissect_schema_loop_ok split: sum.splits dest: dissect_schema_loop_Inr)


lemma dissect_schema_classes:
  "dissect_schema s =
     (case schema_classes s of Inl e \<Rightarrow> Inl e | Inr cs \<Rightarrow> dissect_schema_loop cs [])"
  by (simp add: dissect_schema_def schema_classes_def split: sum.splits)

lemma class_entry_exclusive:
  assumes "distinct (map property_name ps)" and "p \<in> set ps"
  shows "property_name p \<in> set (map property_name (filter property_is_primitive ps)) \<longleftrightarrow>
         property_name p \<notin> set (map property_name (filter (\<lambda>p. \<not> property_is_primitive p) ps))"
proof -
  from assms(1) have inj: "inj_on property_name (set ps)" by (simp add: distinct_map)
  have eq: "q = p" if "q \<in> set ps" "property_name q = property_name p" for q
    using inj assms(2) that by (auto dest: inj_onD)
  have a: "property_name p \<in> set (map property_name (filter P ps)) \<longleftrightarrow> P p" for P
  proof
    assume "property_name p \<in> set (map property_name (filter P ps))"
    then obtain q where "q \<in> set ps" "P q" "property_name q = property_name p" by auto
    with eq [of q] show "P p" by simp
  next
    assume "P p"
    with assms(2) show "property_name p \<in> set (map property_name (filter P ps))" by force
  qed
  show ?thesis by (simp only: a) simp
qed

text \<open>
  C1. When the derivation succeeds, a class descriptor \<open>c\<close> that no later descriptor
  replaces under the same class name has an entry in the derived schema definition. The
  primitive list of the entry holds, in order, the names of the properties of \<open>c\<close> whose
  first data type is one of text, string, int, boolean, number, date, geoCoordinates and
  phoneNumber, and its reference list holds the names of the other properties. So every
  property name of \<open>c\<close> is in at least one of the two lists, and in exactly one of them when
  the property names of \<open>c\<close> are pairwise distinct.
\<close>

theorem dissect_schema_partition:
  assumes "dissect_schema s = Inr d"
    and "schema_classes s = Inr (pre @ c # post)"
    and "\<forall>c'\<in>set post. class_key c' \<noteq> class_key c"
  shows "\<exists>k ps e. class_key c = Inr k \<and> class_properties c = Inr ps \<and> map_of d k = Some e
     \<and> primitive e = map property_name (filter property_is_primitive ps)
     \<and> ref e = map property_name (filter (\<lambda>p. \<not> property_is_primitive p) ps)
     \<and> (\<forall>p\<in>set ps. subscript_key p ''name'' = Inr (property_name p)
           \<and> (\<exists>t. property_tag p = Inr t
                \<and> (property_is_primitive p \<longleftrightarrow>
                     t \<in> JStr ` {''text'', ''string'', ''int'', ''boolean'', ''number'', ''date'',
                                 ''geoCoordinates'', ''phoneNumber''})))
     \<and> (\<forall>p\<in>set ps. property_name p \<in> set (primitive e) \<union> set (ref e))
     \<and> (distinct (map property_name ps) \<longrightarrow>
          (\<forall>p\<in>set ps. property_name p \<in> set (primitive e) \<longleftrightarrow> property_name p \<notin> set (ref e)))"
proof -
  let ?cs = "pre @ c # post"
  from assms(1,2) have loop: "dissect_schema_loop ?cs [] = Inr d"
    by (simp add: dissect_schema_classes)
  then have ok: "\<forall>c'\<in>set ?cs. class_ok c'" by (rule dissect_schema_loop_Inr)
  then have d: "d = fold (\<lambda>c. AList.update (projr (class_key c)) (class_entry c)) ?cs []"
    using loop by (simp only: dissect_schema_loop_ok) simp
  from ok have "class_ok c" by simp
  then obtain k ps where k: "class_key c = Inr k" and ps: "class_properties c = Inr ps"
    and props: "\<forall>p\<in>set ps. property_ok p"
    by (auto simp: class_ok_def not_isl_iff list_all_iff split: sum.splits)
  have "\<forall>c'\<in>set post. projr (class_key c') \<noteq> projr (class_key c)"
  proof
    fix c' assume c': "c' \<in> set post"
    with ok have "class_ok c'" by simp
    then obtain k' where "class_key c' = Inr k'" by (auto simp: class_ok_def not_isl_iff)
    with assms(3) c' k show "projr (class_key c') \<noteq> projr (class_key c)" by auto
  qed
  then have "map_of d (projr (class_key c)) = Some (class_entry c)"
    unfolding d by (rule map_of_fold_update)
  then have e: "map_of d k = Some (class_entry c)" using k by simp
  have names: "\<forall>p\<in>set ps. subscript_key p ''name'' = Inr (property_name p)
           \<and> (\<exists>t. property_tag p = Inr t
                \<and> (property_is_primitive p \<longleftrightarrow>
                     t \<in> JStr ` {''text'', ''string'', ''int'', ''boolean'', ''number'', ''date'',
                                 ''geoCoordinates'', ''phoneNumber''}))"
  proof
    fix p assume "p \<in> set ps"
    with props have "property_ok p" by simp
    then obtain t n where "property_tag p = Inr t" "subscript_key p ''name'' = Inr n"
      by (auto simp: property_ok_def not_isl_iff)
    then show "subscript_key p ''name'' = Inr (property_name p)
           \<and> (\<exists>t. property_tag p = Inr t
                \<and> (property_is_primitive p \<longleftrightarrow>
                     t \<in> JStr ` {''text'', ''string'', ''int'', ''boolean'', ''number'', ''date'',
                                 ''geoCoordinates'', ''phoneNumber''}))"
      by (simp add: property_name_def property_is_primitive_def is_primitive_prop_def
          primitive_types_def)
  qed
  have cover: "\<forall>p\<in>set ps. property_name p \<in> set (primitive (class_entry c)) \<union> set (ref (class_entry c))"
    using ps by (auto simp: class_entry_def)
  have excl: "distinct (map property_name ps) \<longrightarrow>
          (\<forall>p\<in>set ps. property_name p \<in> set (primitive (class_entry c))
              \<longleftrightarrow> property_name p \<notin> set (ref (class_entry c)))"
    using ps class_entry_exclusive [of ps] by (simp add: class_entry_def)
  have lists: "primitive (class_entry c) = map property_name (filter property_is_primitive ps)"
    "ref (class_entry c) = map property_name (filter (\<lambda>p. \<not> property_is_primitive p) ps)"
    using ps by (simp_all add: class_entry_def)
  show ?thesis
    using k ps e names cover excl lists by blast
qed

theorem dissect_schema_partition_witness:
  "\<exists>e. map_of [(JStr ''Doc'', \<lparr>primitive = [JStr ''title''], ref = [JStr ''refs'']\<rparr>)]
          (JStr ''Doc'') = Some e
     \<and> primitive e = [JStr ''title''] \<and> ref e = [JStr ''refs'']
     \<and> JStr ''title'' \<notin> set (ref e) \<and> JStr ''refs'' \<notin> set (primitive e)"
proof -
  let ?c = "JObj [(''class'', JStr ''Doc''),
                  (''properties'', JArr
                     [JObj [(''name'', JStr ''title''), (''dataType'', JArr [JStr ''text''])],
                      JObj [(''name'', JStr ''refs''), (''dataType'', JArr [JStr ''Doc''])]])]"
  let ?s = "JObj [(''classes'', JArr [?c])]"
  have h1: "dissect_schema ?s =
      Inr [(JStr ''Doc'', \<lparr>primitive = [JStr ''title''], ref = [JStr ''refs'']\<rparr>)]"
    by (simp add: dissect_schema_def get_schema_properties_def is_primitive_prop_def
        primitive_types_def)
  have h2: "schema_classes ?s = Inr ([] @ ?c # [])"
    by (simp add: schema_classes_def)
  have h3: "\<forall>c'\<in>set []. class_key c' \<noteq> class_key ?c"
    by simp
  from dissect_schema_partition [OF h1 h2 h3] show ?thesis
    by (auto simp: class_key_def class_properties_def property_name_def
        property_is_primitive_def property_tag_def is_primitive_prop_def primitive_types_def)
qed

theorem dissect_schema_partition_counterexample:
  "dissect_schema
     (JObj [(''classes'', JArr
       [JObj [(''class'', JStr ''Doc''),
              (''properties'', JArr
                 [JObj [(''name'', JStr ''p''), (''dataType'', JArr [JStr ''text''])],
                  JObj [(''name'', JStr ''p''), (''dataType'', JArr [JStr ''Doc''])]])]])]) =
   Inr [(JStr ''Doc'', \<lparr>primitive = [JStr ''p''], ref = [JStr ''p'']\<rparr>)]"
  by (simp add: dissect_schema_def get_schema_properties_def is_primitive_prop_def
      primitive_types_def)

lemma Raised_dict_get: "dict_get v k dflt = Inl f \<Longrightarrow> f = Raised AttributeError"
  by (cases v) auto

lemma Raised_subscript_key:
  "subscript_key v k = Inl f \<Longrightarrow> f = Raised KeyError \<or> f = Raised TypeError"
  by (cases v) (auto split: option.splits)

lemma Raised_subscript_zero:
  "subscript_zero v = Inl f \<Longrightarrow>
   f = Raised IndexError \<or> f = Raised KeyError \<or> f = Raised TypeError"
  by (induction v rule: subscript_zero.induct) auto

lemma Raised_py_iter: "py_iter v = Inl f \<Longrightarrow> f = Raised TypeError"
  by (cases v) auto

lemma Raised_dict_key: "dict_key v = Inl f \<Longrightarrow> f = Raised TypeError"
  by (cases v) auto

lemma Raised_get_schema_properties_loop:
  "get_schema_properties_loop ps prim rf = Inl f \<Longrightarrow>
   f = Raised KeyError \<or> f = Raised TypeError \<or> f = Raised IndexError"
proof (induction ps arbitrary: prim rf)
  case Nil
  then show ?case by simp
next
  case (Cons p ps)
  show ?case
  proof (cases "subscript_key p ''dataType''")
    case (Inl e)
    with Cons.prems Raised_subscript_key [OF Inl] show ?thesis by auto
  next
    case dt: (Inr dt)
    show ?thesis
    proof (cases "subscript_zero dt")
      case (Inl e)
      with Cons.prems dt Raised_subscript_zero [OF Inl] show ?thesis by auto
    next
      case tag: (Inr tag)
      show ?thesis
      proof (cases "subscript_key p ''name''")
        case (Inl e)
        with Cons.prems dt tag Raised_subscript_key [OF Inl] show ?thesis by auto
      next
        case (Inr name)
        with Cons.prems dt tag show ?thesis
          using Cons.IH by (auto split: if_splits)
      qed
    qed
  qed
qed

lemma Raised_get_schema_properties:
  assumes "get_schema_properties props = Inl f"
  shows "f = Raised KeyError \<or> f = Raised TypeError \<or> f = Raised IndexError"
proof (cases "py_iter props")
  case (Inl e)
  with assms Raised_py_iter [OF Inl] show ?thesis by (simp add: get_schema_properties_def)
next
  case (Inr ps)
  with assms show ?thesis
    using Raised_get_schema_properties_loop [of ps "[]" "[]" f]
    by (simp add: get_schema_properties_def)
qed

lemma Raised_dissect_schema_loop:
  "dissect_schema_loop cs d = Inl f \<Longrightarrow>
   f = Raised KeyError \<or> f = Raised TypeError \<or> f = Raised IndexError"
proof (induction cs arbitrary: d)
  case Nil
  then show ?case by simp
next
  case (Cons c cs)
  show ?case
  proof (cases "subscript_key c ''properties''")
    case (Inl e)
    with Cons.prems Raised_subscript_key [OF Inl] show ?thesis by auto
  next
    case props: (Inr props)
    show ?thesis
    proof (cases "get_schema_properties props")
      case (Inl e)
      with Cons.prems props Raised_get_schema_properties [OF Inl] show ?thesis by auto
    next
      case lists: (Inr lists)
      obtain prim rf where l: "lists = (prim, rf)" by (cases lists)
      show ?thesis
      proof (cases "subscript_key c ''class''")
        case (Inl e)
        with Cons.prems props lists l Raised_subscript_key [OF Inl] show ?thesis by auto
      next
        case name: (Inr name)
        show ?thesis
        proof (cases "dict_key name")
          case (Inl e)
          with Cons.prems props lists l name Raised_dict_key [OF Inl] show ?thesis by auto
        next
          case (Inr k)
          with Cons.prems props lists l name show ?thesis
            using Cons.IH by simp
        qed
      qed
    qed
  qed
qed

lemma Raised_dissect_schema:
  assumes "dissect_schema s = Inl f"
  shows "f = Raised KeyError \<or> f = Raised TypeError \<or> f = Raised AttributeError
       \<or> f = Raised IndexError"
proof (cases "dict_get s ''classes'' (JArr [])")
  case (Inl e)
  with assms Raised_dict_get [OF Inl] show ?thesis by (simp add: dissect_schema_def)
next
  case classes: (Inr classes)
  show ?thesis
  proof (cases "py_iter classes")
    case (Inl e)
    with assms classes Raised_py_iter [OF Inl] show ?thesis by (simp add: dissect_schema_def)
  next
    case (Inr cs)
    with assms classes Raised_dissect_schema_loop [of cs "[]" f] show ?thesis
      by (auto simp: dissect_schema_def)
  qed
qed

lemma no_pairs_iff: "(\<forall>a b. (a, b) \<notin> set xs) \<longleftrightarrow> xs = []"
  by (cases xs) auto

lemma subscript_zero_Inr:
  "(\<exists>t. subscript_zero dt = Inr t) \<longleftrightarrow>
   (\<exists>x xs. dt = JArr (x # xs)) \<or> (\<exists>c cs. dt = JStr (c # cs))"
  by (induction dt rule: subscript_zero.induct) auto

lemma property_ok_shape:
  "property_ok p \<longleftrightarrow>
   (\<exists>kvs n dt. p = JObj kvs \<and> map_of kvs ''name'' = Some n \<and> map_of kvs ''dataType'' = Some dt
      \<and> ((\<exists>x xs. dt = JArr (x # xs)) \<or> (\<exists>c cs. dt = JStr (c # cs))))"
proof (cases p)
  case (JObj kvs)
  show ?thesis
  proof (cases "map_of kvs ''dataType''")
    case None
    with JObj show ?thesis by (simp add: property_ok_def property_tag_def)
  next
    case (Some dt)
    with JObj subscript_zero_Inr [of dt] show ?thesis
      by (cases "map_of kvs ''name''") (simp_all add: property_ok_def property_tag_def not_isl_iff)
  qed
qed (simp_all add: property_ok_def property_tag_def)

lemma dict_key_Inr: "(\<exists>k. dict_key name = Inr k) \<longleftrightarrow> (\<forall>xs. name \<noteq> JArr xs) \<and> (\<forall>m. name \<noteq> JObj m)"
  by (cases name) auto

lemma class_ok_shape:
  "class_ok c \<longleftrightarrow>
   (\<exists>kvs props name. c = JObj kvs \<and> map_of kvs ''properties'' = Some props
      \<and> map_of kvs ''class'' = Some name
      \<and> (\<forall>xs. name \<noteq> JArr xs) \<and> (\<forall>m. name \<noteq> JObj m)
      \<and> ((\<exists>ps. props = JArr ps \<and> (\<forall>p\<in>set ps. property_ok p))
          \<or> props = JStr [] \<or> props = JObj []))"
proof (cases c)
  case (JObj kvs)
  show ?thesis
  proof (cases "map_of kvs ''properties''")
    case None
    with JObj show ?thesis by (simp add: class_ok_def class_properties_def)
  next
    case props: (Some props)
    have iter: "(case py_iter props of Inl e \<Rightarrow> False | Inr ps \<Rightarrow> list_all property_ok ps) \<longleftrightarrow>
        (\<exists>ps. props = JArr ps \<and> (\<forall>p\<in>set ps. property_ok p)) \<or> props = JStr [] \<or> props = JObj []"
      by (cases props) (auto simp: list_all_iff property_ok_shape no_pairs_iff)
    show ?thesis
    proof (cases "map_of kvs ''class''")
      case None
      with JObj props show ?thesis by (simp add: class_ok_def class_properties_def class_key_def)
    next
      case (Some name)
      with JObj props iter dict_key_Inr [of name] show ?thesis
        by (auto simp: class_ok_def class_properties_def class_key_def not_isl_iff)
    qed
  qed
qed (simp_all add: class_ok_def class_properties_def)

lemma schema_ok_shape:
  "schema_ok s \<longleftrightarrow>
   (\<exists>kvs. s = JObj kvs
      \<and> (map_of kvs ''classes'' = None
          \<or> (\<exists>cs. map_of kvs ''classes'' = Some (JArr cs) \<and> (\<forall>c\<in>set cs. class_ok c))
          \<or> map_of kvs ''classes'' = Some (JStr [])
          \<or> map_of kvs ''classes'' = Some (JObj [])))"
proof (cases s)
  case (JObj kvs)
  show ?thesis
  proof (cases "map_of kvs ''classes''")
    case None
    with JObj show ?thesis by (simp add: schema_ok_def schema_classes_def)
  next
    case (Some classes)
    with JObj show ?thesis
      by (cases classes)
        (auto simp: schema_ok_def schema_classes_def list_all_iff class_ok_shape no_pairs_iff)
  qed
qed (simp_all add: schema_ok_def schema_classes_def)

text \<open>
  C7. The outcome of the derivation, a schema definition or an exception, is a function of
  the schema document alone. The derivation succeeds exactly on the documents that are a
  dict whose value under \<open>classes\<close> is absent, a list of readable class descriptors, an
  empty string or an empty dict. A class descriptor is readable when it is a dict with a
  value under \<open>class\<close> that is neither a list nor a dict, and with a value under
  \<open>properties\<close> that is a list of readable property descriptors, an empty string or an
  empty dict. A property descriptor is readable when it is a dict with a value under \<open>name\<close>
  and with a non-empty list or a non-empty string under \<open>dataType\<close>. The schema definition
  is then the dict filled with the entry of each class descriptor in turn. On every other
  document the derivation raises a KeyError, a TypeError, an AttributeError or an
  IndexError.
\<close>

theorem dissect_schema_succeeds_iff:
  "(\<forall>r r'. dissect_schema s = r \<and> dissect_schema s = r' \<longrightarrow> r = r')
   \<and> (schema_ok s \<longleftrightarrow> (\<exists>d. dissect_schema s = Inr d))
   \<and> (schema_ok s \<longrightarrow>
        dissect_schema s =
          Inr (fold (\<lambda>c. AList.update (projr (class_key c)) (class_entry c))
                 (projr (schema_classes s)) []))
   \<and> (\<not> schema_ok s \<longrightarrow>
        (\<exists>e\<in>{KeyError, TypeError, AttributeError, IndexError}. dissect_schema s = Inl (Raised e)))
   \<and> (schema_ok s \<longleftrightarrow>
        (\<exists>kvs. s = JObj kvs
           \<and> (map_of kvs ''classes'' = None
               \<or> (\<exists>cs. map_of kvs ''classes'' = Some (JArr cs) \<and> (\<forall>c\<in>set cs. class_ok c))
               \<or> map_of kvs ''classes'' = Some (JStr [])
               \<or> map_of kvs ''classes'' = Some (JObj []))))
   \<and> (\<forall>c. class_ok c \<longleftrightarrow>
        (\<exists>kvs props name. c = JObj kvs \<and> map_of kvs ''properties'' = Some props
           \<and> map_of kvs ''class'' = Some name
           \<and> (\<forall>xs. name \<noteq> JArr xs) \<and> (\<forall>m. name \<noteq> JObj m)
           \<and> ((\<exists>ps. props = JArr ps \<and> (\<forall>p\<in>set ps. property_ok p))
               \<or> props = JStr [] \<or> props = JObj [])))
   \<and> (\<forall>p. property_ok p \<longleftrightarrow>
        (\<exists>kvs n dt. p = JObj kvs \<and> map_of kvs ''name'' = Some n
           \<and> map_of kvs ''dataType'' = Some dt
           \<and> ((\<exists>x xs. dt = JArr (x # xs)) \<or> (\<exists>c cs. dt = JStr (c # cs)))))"
proof (intro conjI impI allI)
  show "r = r'" if "dissect_schema s = r \<and> dissect_schema s = r'" for r r'
    using that by auto
  show iff: "schema_ok s \<longleftrightarrow> (\<exists>d. dissect_schema s = Inr d)"
    by (auto simp: dissect_schema_classes schema_ok_def list_all_iff dissect_schema_loop_ok
        split: sum.splits dest: dissect_schema_loop_Inr)
  show "dissect_schema s =
          Inr (fold (\<lambda>c. AList.update (projr (class_key c)) (class_entry c))
                 (projr (schema_classes s)) [])" if "schema_ok s"
    using that
    by (auto simp: dissect_schema_classes schema_ok_def list_all_iff dissect_schema_loop_ok
        split: sum.splits)
  show "\<exists>e\<in>{KeyError, TypeError, AttributeError, IndexError}. dissect_schema s = Inl (Raised e)"
    if "\<not> schema_ok s"
  proof (cases "dissect_schema s")
    case (Inl f)
    then show ?thesis using Raised_dissect_schema [OF Inl] by auto
  next
    case (Inr d)
    then show ?thesis using that iff by auto
  qed
  show "schema_ok s \<longleftrightarrow>
        (\<exists>kvs. s = JObj kvs
           \<and> (map_of kvs ''classes'' = None
               \<or> (\<exists>cs. map_of kvs ''classes'' = Some (JArr cs) \<and> (\<forall>c\<in>set cs. class_ok c))
               \<or> map_of kvs ''classes'' = Some (JStr [])
               \<or> map_of kvs ''classes'' = Some (JObj [])))"
    by (rule schema_ok_shape)
  show "class_ok c \<longleftrightarrow>
        (\<exists>kvs props name. c = JObj kvs \<and> map_of kvs ''properties'' = Some props
           \<and> map_of kvs ''class'' = Some name
           \<and> (\<forall>xs. name \<noteq> JArr xs) \<and> (\<forall>m. name \<noteq> JObj m)
           \<and> ((\<exists>ps. props = JArr ps \<and> (\<forall>p\<in>set ps. property_ok p))
               \<or> props = JStr [] \<or> props = JObj []))" for c
    by (rule class_ok_shape)
  show "property_ok p \<longleftrightarrow>
        (\<exists>kvs n dt. p = JObj kvs \<and> map_of kvs ''name'' = Some n
           \<and> map_of kvs ''dataType'' = Some dt
           \<and> ((\<exists>x xs. dt = JArr (x # xs)) \<or> (\<exists>c cs. dt = JStr (c # cs))))" for p
    by (rule property_ok_shape)
qed

theorem dissect_schema_succeeds_iff_witness:
  "schema_ok (JObj [(''classes'', JArr
       [JObj [(''class'', JStr ''Doc''),
              (''properties'', JArr
                 [JObj [(''name'', JStr ''title''), (''dataType'', JArr [JStr ''text''])],
                  JObj [(''name'', JStr ''refs''), (''dataType'', JArr [JStr ''Doc''])]])]])])
   \<and> dissect_schema (JObj [(''classes'', JArr
       [JObj [(''class'', JStr ''Doc''),
              (''properties'', JArr
                 [JObj [(''name'', JStr ''title''), (''dataType'', JArr [JStr ''text''])],
                  JObj [(''name'', JStr ''refs''), (''dataType'', JArr [JStr ''Doc''])]])]])]) =
     Inr [(JStr ''Doc'', \<lparr>primitive = [JStr ''title''], ref = [JStr ''refs'']\<rparr>)]
   \<and> \<not> schema_ok (JObj [(''classes'', JArr [JObj [(''class'', JStr ''Doc'')]])])
   \<and> (\<exists>e\<in>{KeyError, TypeError, AttributeError, IndexError}.
        dissect_schema (JObj [(''classes'', JArr [JObj [(''class'', JStr ''Doc'')]])]) =
          Inl (Raised e))"
proof -
  let ?s = "JObj [(''classes'', JArr
       [JObj [(''class'', JStr ''Doc''),
              (''properties'', JArr
                 [JObj [(''name'', JStr ''title''), (''dataType'', JArr [JStr ''text''])],
                  JObj [(''name'', JStr ''refs''), (''dataType'', JArr [JStr ''Doc''])]])]])]"
  let ?t = "JObj [(''classes'', JArr [JObj [(''class'', JStr ''Doc'')]])]"
  have ok: "schema_ok ?s"
    by (simp add: schema_ok_def schema_classes_def class_ok_def class_properties_def
        class_key_def property_ok_def property_tag_def)
  have bad: "\<not> schema_ok ?t"
    by (simp add: schema_ok_def schema_classes_def class_ok_def class_properties_def)
  from dissect_schema_succeeds_iff [of ?s] ok
  have "dissect_schema ?s =
          Inr (fold (\<lambda>c. AList.update (projr (class_key c)) (class_entry c))
                 (projr (schema_classes ?s)) [])"
    by blast
  then have result: "dissect_schema ?s =
      Inr [(JStr ''Doc'', \<lparr>primitive = [JStr ''title''], ref = [JStr ''refs'']\<rparr>)]"
    by (simp add: schema_classes_def class_properties_def class_key_def class_entry_def
        property_name_def property_is_primitive_def property_tag_def is_primitive_prop_def
        primitive_types_def)
  from dissect_schema_succeeds_iff [of ?t] bad
  have "\<exists>e\<in>{KeyError, TypeError, AttributeError, IndexError}. dissect_schema ?t = Inl (Raised e)"
    by blast
  with ok bad result show ?thesis by blast
qed

theorem dissect_schema_succeeds_iff_counterexample:
  "dissect_schema (JObj [(''classes'', JArr [JObj [(''class'', JStr ''Doc'')]])]) =
   Inl (Raised KeyError)"
  by (simp add: dissect_schema_def)

section \<open>Validation of an object\<close>


lemma length_dissect_reference_loop:
  "dissect_reference_loop ds fc fid fp acc = Inr rs \<Longrightarrow> length rs = length acc + length ds"
  by (induction ds arbitrary: acc) (auto split: sum.splits)

lemma length_dissect_reference:
  "dissect_reference v fc fid fp = Inr rs \<Longrightarrow> length rs = descriptor_count v"
  by (auto simp: dissect_reference_def descriptor_count_def split: sum.splits
      dest: length_dissect_reference_loop)






lemma validate_props_split:
  assumes "validate_props sd cn oid items dobj refs = (out, None, dobj', refs')"
    and "distinct (map fst items)"
    and "fst ` set items \<inter> fst ` set dobj = {}"
  shows "out = []
       \<and> dobj' = dobj @ filter (is_primitive_property sd) items
       \<and> (\<exists>new. refs' = refs @ new
             \<and> length new =
                 sum_list (map (\<lambda>p. descriptor_count (snd p))
                   (filter (\<lambda>p. \<not> is_primitive_property sd p) items)))
       \<and> (\<forall>p\<in>set items. \<not> is_primitive_property sd p \<longrightarrow> is_reference_property sd p)"
  using assms
proof (induction items arbitrary: dobj refs)
  case Nil
  then show ?case by simp
next
  case (Cons p items)
  obtain n v where p: "p = (n, v)" by (cases p)
  show ?case
  proof (cases "JStr n \<in> set (primitive sd)")
    case True
    have fresh: "n \<notin> fst ` set dobj" using Cons.prems(3) p by auto
    then have upd: "AList.update n v dobj = dobj @ [(n, v)]"
      by (induction dobj) auto
    from Cons.prems(1) True p
    have step: "validate_props sd cn oid items (dobj @ [(n, v)]) refs = (out, None, dobj', refs')"
      by (simp add: upd)
    have "fst ` set items \<inter> fst ` set (dobj @ [(n, v)]) = {}"
      using Cons.prems(2,3) p by auto
    from Cons.IH [OF step _ this] Cons.prems(2) True p show ?thesis
      by (simp add: is_primitive_property_def)
  next
    case False
    with Cons.prems(1) p obtain rs where inref: "JStr n \<in> set (ref sd)"
      and rs: "dissect_reference v cn oid n = Inr rs"
      and step: "validate_props sd cn oid items dobj (refs @ rs) = (out, None, dobj', refs')"
      by (auto simp: exit_validation_failed_def split: if_splits sum.splits)
    have "fst ` set items \<inter> fst ` set dobj = {}"
      using Cons.prems(3) by auto
    from Cons.IH [OF step _ this] Cons.prems(2) False inref p length_dissect_reference [OF rs]
    show ?thesis
      by (auto simp: is_primitive_property_def is_reference_property_def)
  qed
qed

lemma validate_obj_known:
  assumes "dict_get obj ''class'' JNull = Inr cn"
    and "schema_lookup (schema self) cn = Inr (Some sd)"
    and "dict_get obj ''properties'' (JObj []) = Inr (JObj items)"
  shows "\<exists>oid vec. dict_get obj ''id'' JNull = Inr oid \<and> dict_get obj ''vector'' JNull = Inr vec
     \<and> validate_obj self obj =
        (case validate_props sd cn oid items [] (data_references self) of
           (out, Some e, dobj, refs) \<Rightarrow> (out, Some e, self\<lparr>data_references := refs\<rparr>)
         | (out, None, dobj, refs) \<Rightarrow>
             (out, None,
              self\<lparr>data_references := refs,
                   data_objects := data_objects self @
                     [\<lparr>class_name = cn, uuid = oid, data_object = dobj,
                       vector = (if vec = JNull then None else Some vec)\<rparr>]\<rparr>))"
proof -
  from assms(1) obtain kvs where "obj = JObj kvs" by (cases obj) auto
  then show ?thesis using assms by (simp add: validate_obj_def)
qed


text \<open>
  C3. For an object that validates, whose class has the entry \<open>sd\<close> and whose properties are
  \<open>items\<close>, with distinct names as in a dict: the validation appends exactly one object
  record, with the class name and id of the object, whose data mapping is the items found
  in the primitive list, as they are and in their order (so as many entries as there are
  such properties). Every other property is in the reference list, and the validation
  appends as many reference records as the properties that are in the reference list and
  not in the primitive list hold descriptors in all. When the two lists of the entry share
  no name, these are the properties in the reference list.
\<close>

theorem validate_obj_records:
  assumes "validate_obj self obj = (out, None, self')"
    and "dict_get obj ''class'' JNull = Inr cn"
    and "schema_lookup (schema self) cn = Inr (Some sd)"
    and "dict_get obj ''properties'' (JObj []) = Inr (JObj items)"
    and "distinct (map fst items)"
  shows "\<exists>rec new.
       data_objects self' = data_objects self @ [rec]
     \<and> class_name rec = cn
     \<and> dict_get obj ''id'' JNull = Inr (uuid rec)
     \<and> data_object rec = filter (is_primitive_property sd) items
     \<and> length (data_object rec) = length (filter (is_primitive_property sd) items)
     \<and> data_references self' = data_references self @ new
     \<and> length new =
         sum_list (map (\<lambda>p. descriptor_count (snd p)) (filter (is_reference_property sd) items))
     \<and> (\<forall>p\<in>set items. is_primitive_property sd p \<or> is_reference_property sd p)
     \<and> (set (primitive sd) \<inter> set (ref sd) = {} \<longrightarrow>
          filter (is_reference_property sd) items =
          filter (\<lambda>p. JStr (fst p) \<in> set (ref sd)) items)"
proof -
  from validate_obj_known [OF assms(2,3,4)] obtain oid vec where
    oid: "dict_get obj ''id'' JNull = Inr oid" and
    v: "validate_obj self obj =
        (case validate_props sd cn oid items [] (data_references self) of
           (out, Some e, dobj, refs) \<Rightarrow> (out, Some e, self\<lparr>data_references := refs\<rparr>)
         | (out, None, dobj, refs) \<Rightarrow>
             (out, None,
              self\<lparr>data_references := refs,
                   data_objects := data_objects self @
                     [\<lparr>class_name = cn, uuid = oid, data_object = dobj,
                       vector = (if vec = JNull then None else Some vec)\<rparr>]\<rparr>))"
    by blast
  obtain o' r dobj refs where vp:
    "validate_props sd cn oid items [] (data_references self) = (o', r, dobj, refs)"
    by (cases "validate_props sd cn oid items [] (data_references self)") auto
  with v assms(1) have r: "r = None" by (cases r) auto
  from v assms(1) vp r have self': "self' = self\<lparr>data_references := refs,
                   data_objects := data_objects self @
                     [\<lparr>class_name = cn, uuid = oid, data_object = dobj,
                       vector = (if vec = JNull then None else Some vec)\<rparr>]\<rparr>"
    by simp
  from vp r have "validate_props sd cn oid items [] (data_references self) = (o', None, dobj, refs)"
    by simp
  from validate_props_split [OF this assms(5)] obtain new where
    dobj: "dobj = filter (is_primitive_property sd) items" and
    new: "refs = data_references self @ new"
      "length new = sum_list (map (\<lambda>p. descriptor_count (snd p))
                   (filter (\<lambda>p. \<not> is_primitive_property sd p) items))" and
    sorted: "\<forall>p\<in>set items. \<not> is_primitive_property sd p \<longrightarrow> is_reference_property sd p"
    by auto
  have same: "filter (\<lambda>p. \<not> is_primitive_property sd p) items =
              filter (is_reference_property sd) items"
    using sorted
    by (intro filter_cong refl) (auto simp: is_reference_property_def is_primitive_property_def)
  have disj: "set (primitive sd) \<inter> set (ref sd) = {} \<longrightarrow>
          filter (is_reference_property sd) items =
          filter (\<lambda>p. JStr (fst p) \<in> set (ref sd)) items"
    by (auto simp: is_reference_property_def intro!: filter_cong)
  show ?thesis
    using self' oid dobj new sorted same disj by auto
qed

theorem validate_obj_records_witness:
  "validate_obj
     \<lparr>data = JNull, schema = [(JStr ''Doc'', \<lparr>primitive = [JStr ''title''], ref = [JStr ''refs'']\<rparr>)],
      data_objects = [], data_references = []\<rparr>
     (JObj [(''class'', JStr ''Doc''), (''id'', JStr ''x1''),
            (''properties'', JObj [(''title'', JStr ''hi''),
                (''refs'', JArr [JObj [(''beacon'', JStr ''scheme://host/Doc/y1'')]])])]) =
   ([], None,
    \<lparr>data = JNull, schema = [(JStr ''Doc'', \<lparr>primitive = [JStr ''title''], ref = [JStr ''refs'']\<rparr>)],
      data_objects = [\<lparr>class_name = JStr ''Doc'', uuid = JStr ''x1'',
                       data_object = [(''title'', JStr ''hi'')], vector = None\<rparr>],
      data_references = [\<lparr>from_object_uuid = JStr ''x1'', from_object_class_name = JStr ''Doc'',
                           from_property_name = ''refs'', to_object_uuid = ''y1''\<rparr>]\<rparr>)
   \<and> (\<exists>rec new.
        data_objects (snd (snd (validate_obj
          \<lparr>data = JNull,
            schema = [(JStr ''Doc'', \<lparr>primitive = [JStr ''title''], ref = [JStr ''refs'']\<rparr>)],
            data_objects = [], data_references = []\<rparr>
          (JObj [(''class'', JStr ''Doc''), (''id'', JStr ''x1''),
            (''properties'', JObj [(''title'', JStr ''hi''),
                (''refs'', JArr [JObj [(''beacon'', JStr ''scheme://host/Doc/y1'')]])])])))) =
          [] @ [rec]
      \<and> class_name rec = JStr ''Doc''
      \<and> uuid rec = JStr ''x1''
      \<and> data_object rec = [(''title'', JStr ''hi'')]
      \<and> length (data_object rec) = 1
      \<and> data_references (snd (snd (validate_obj
          \<lparr>data = JNull,
            schema = [(JStr ''Doc'', \<lparr>primitive = [JStr ''title''], ref = [JStr ''refs'']\<rparr>)],
            data_objects = [], data_references = []\<rparr>
          (JObj [(''class'', JStr ''Doc''), (''id'', JStr ''x1''),
            (''properties'', JObj [(''title'', JStr ''hi''),
                (''refs'', JArr [JObj [(''beacon'', JStr ''scheme://host/Doc/y1'')]])])])))) =
          [] @ new
      \<and> length new = 1)"
proof -
  let ?obj = "JObj [(''class'', JStr ''Doc''), (''id'', JStr ''x1''),
                    (''properties'', JObj [(''title'', JStr ''hi''),
                        (''refs'', JArr [JObj [(''beacon'', JStr ''scheme://host/Doc/y1'')]])])]"
  let ?sd = "\<lparr>primitive = [JStr ''title''], ref = [JStr ''refs'']\<rparr>"
  let ?self = "\<lparr>data = JNull, schema = [(JStr ''Doc'', ?sd)],
                data_objects = [], data_references = []\<rparr>"
  let ?self' = "\<lparr>data = JNull, schema = [(JStr ''Doc'', ?sd)],
      data_objects = [\<lparr>class_name = JStr ''Doc'', uuid = JStr ''x1'',
                       data_object = [(''title'', JStr ''hi'')], vector = None\<rparr>],
      data_references = [\<lparr>from_object_uuid = JStr ''x1'', from_object_class_name = JStr ''Doc'',
                           from_property_name = ''refs'', to_object_uuid = ''y1''\<rparr>]\<rparr>"
  have h1: "validate_obj ?self ?obj = ([], None, ?self')"
    by (simp add: validate_obj_def schema_lookup_def dissect_reference_def)
  have h2: "dict_get ?obj ''class'' JNull = Inr (JStr ''Doc'')" by simp
  have h3: "schema_lookup (schema ?self) (JStr ''Doc'') = Inr (Some ?sd)"
    by (simp add: schema_lookup_def)
  have h4: "dict_get ?obj ''properties'' (JObj []) =
      Inr (JObj [(''title'', JStr ''hi''),
                 (''refs'', JArr [JObj [(''beacon'', JStr ''scheme://host/Doc/y1'')]])])"
    by simp
  have h5: "distinct (map fst [(''title'', JStr ''hi''),
                 (''refs'', JArr [JObj [(''beacon'', JStr ''scheme://host/Doc/y1'')]])])"
    by simp
  from validate_obj_records [OF h1 h2 h3 h4 h5] h1 show ?thesis
    by (simp add: is_primitive_property_def is_reference_property_def descriptor_count_def)
qed

theorem validate_obj_records_counterexample:
  "init_vasd JNull
     (JObj [(''classes'', JArr
       [JObj [(''class'', JStr ''Doc''),
              (''properties'', JArr
                 [JObj [(''name'', JStr ''p''), (''dataType'', JArr [JStr ''text''])],
                  JObj [(''name'', JStr ''p''), (''dataType'', JArr [JStr ''Doc''])]])]])]) =
     Inr \<lparr>data = JNull,
          schema = [(JStr ''Doc'', \<lparr>primitive = [JStr ''p''], ref = [JStr ''p'']\<rparr>)],
          data_objects = [], data_references = []\<rparr>
   \<and> validate_obj
       \<lparr>data = JNull, schema = [(JStr ''Doc'', \<lparr>primitive = [JStr ''p''], ref = [JStr ''p'']\<rparr>)],
        data_objects = [], data_references = []\<rparr>
       (JObj [(''class'', JStr ''Doc''), (''id'', JStr ''x1''),
              (''properties'',
                 JObj [(''p'', JArr [JObj [(''beacon'', JStr ''weaviate://localhost/Doc/y1'')]])])]) =
     ([], None,
      \<lparr>data = JNull, schema = [(JStr ''Doc'', \<lparr>primitive = [JStr ''p''], ref = [JStr ''p'']\<rparr>)],
        data_objects =
          [\<lparr>class_name = JStr ''Doc'', uuid = JStr ''x1'',
            data_object =
              [(''p'', JArr [JObj [(''beacon'', JStr ''weaviate://localhost/Doc/y1'')]])],
            vector = None\<rparr>],
        data_references = []\<rparr>)"
  by (simp add: init_vasd_def dissect_schema_def get_schema_properties_def is_primitive_prop_def
      primitive_types_def validate_obj_def schema_lookup_def)




section \<open>The import run\<close>

lemma validate_props_outcome_indep:
  "fst (snd (validate_props sd cn oid items dobj refs)) =
   fst (snd (validate_props sd cn oid items dobj' refs'))"
proof (induction items arbitrary: dobj refs dobj' refs')
  case Nil
  show ?case by simp
next
  case (Cons p items)
  obtain n v where p: "p = (n, v)" by (cases p)
  show ?case
  proof (cases "JStr n \<in> set (primitive sd)")
    case True
    then show ?thesis using p Cons [of "AList.update n v dobj" refs "AList.update n v dobj'" refs']
      by simp
  next
    case False
    show ?thesis
    proof (cases "dissect_reference v cn oid n")
      case (Inl e)
      then show ?thesis using p False by simp
    next
      case (Inr rs)
      then show ?thesis using p False Cons [of dobj "refs @ rs" dobj' "refs' @ rs"]
        by simp
    qed
  qed
qed

lemma validate_obj_outcome_indep:
  assumes "schema s = schema s'"
  shows "fst (snd (validate_obj s obj)) = fst (snd (validate_obj s' obj))"
proof -
  define po where "po sd cn oid items = fst (snd (validate_props sd cn oid items [] []))"
    for sd cn oid items
  have norm: "fst (snd (validate_props sd cn oid items dobj refs)) = po sd cn oid items"
    for sd cn oid items dobj refs
    unfolding po_def by (rule validate_props_outcome_indep)
  have wrap: "fst (snd (case validate_props sd cn oid items [] refs0 of
           (out, Some e, dobj, refs) \<Rightarrow> (out, Some e, f refs)
         | (out, None, dobj, refs) \<Rightarrow> (out, None, g dobj refs))) = po sd cn oid items"
    for sd cn oid items refs0 and f :: "ref_batch_parameters list \<Rightarrow> vasd" and g
    unfolding norm [symmetric, of sd cn oid items "[]" refs0]
    by (auto split: prod.splits option.splits)
  show ?thesis
    using assms
    by (simp add: validate_obj_def wrap split: sum.splits option.splits)
qed

lemma schema_validate_obj: "schema (snd (snd (validate_obj s obj))) = schema s"
  by (simp add: validate_obj_def split: sum.splits option.splits prod.splits)

lemma validate_loop_all_valid:
  "validate_loop s objs = (out, None, s') \<Longrightarrow>
   \<forall>obj\<in>set objs. fst (snd (validate_obj s obj)) = None"
proof (induction objs arbitrary: s out)
  case Nil
  show ?case by simp
next
  case (Cons obj objs)
  obtain o1 r1 s1 where v: "validate_obj s obj = (o1, r1, s1)"
    by (cases "validate_obj s obj") auto
  with Cons.prems have r1: "r1 = None" by (cases r1) auto
  obtain o2 r2 s2 where l: "validate_loop s1 objs = (o2, r2, s2)"
    by (cases "validate_loop s1 objs") auto
  with Cons.prems v r1 have "r2 = None" "s2 = s'" by simp_all
  with l have "\<forall>x\<in>set objs. fst (snd (validate_obj s1 x)) = None"
    using Cons.IH by simp
  moreover have "schema s1 = schema s"
    using schema_validate_obj [of s obj] v by simp
  ultimately have "\<forall>x\<in>set objs. fst (snd (validate_obj s x)) = None"
    using validate_obj_outcome_indep [of s1 s] by simp
  then show ?case using v r1 by simp
qed

lemma validate_and_split_objects:
  "validate_and_split v =
     (case document_objects (data v) of
        Inl e \<Rightarrow> ([], Some e, v)
      | Inr objs \<Rightarrow> validate_loop v objs)"
  by (simp add: validate_and_split_def document_objects_def split: sum.splits)

lemma data_init_vasd: "init_vasd d remote_schema = Inr v \<Longrightarrow> data v = d"
  by (auto simp: init_vasd_def split: sum.splits)

lemma no_write_prints: "filter is_write (map Print out) = []"
  by (induction out) simp_all

text \<open>
  C6. In a run of the import, a call to the batcher (add an object, add a reference, flush)
  is made only if the input was read, the schema was dissected and the validation of the
  whole document has returned: every object of the document validates, and the events of
  the run are the schema request and the two lines printed, followed by the calls of the
  upload. When the validation ends in a failure, such as the exit of an unknown class or
  property, the run ends with that failure and has made no call to the batcher.
\<close>

theorem import_validates_before_upload:
  assumes "import_data_from_file parsed remote_schema fail_on_error batcher = (trace, r)"
  shows "((\<exists>ev\<in>set trace. is_write ev) \<longrightarrow>
           (\<exists>d v out v' objs rest.
                parsed = Inr d \<and> init_vasd d remote_schema = Inr v
              \<and> document_objects d = Inr objs
              \<and> (\<forall>obj\<in>set objs. fst (snd (validate_obj v obj)) = None)
              \<and> validate_and_split v = (out, None, v')
              \<and> trace = [SchemaGet, Print (PrintText ''Validating data'')] @ map Print out @
                        [Print (PrintText ''Importing data'')] @ rest
              \<and> upload fail_on_error batcher []
                   (map AddDataObject (data_objects v') @
                    map AddReference (data_references v') @ [Flush]) = (rest, r)))
       \<and> (\<forall>d v out e v'.
             parsed = Inr d \<and> init_vasd d remote_schema = Inr v
             \<and> validate_and_split v = (out, Some e, v') \<longrightarrow>
             r = Some e \<and> filter is_write trace = []
             \<and> trace = [SchemaGet, Print (PrintText ''Validating data'')] @ map Print out)"
proof (cases parsed)
  case (Inl e)
  with assms have "trace = []" by (simp add: import_data_from_file_def)
  with Inl show ?thesis by simp
next
  case (Inr d)
  with assms have ld: "load remote_schema d fail_on_error batcher = (trace, r)"
    by (simp add: import_data_from_file_def)
  show ?thesis
  proof (cases "init_vasd d remote_schema")
    case (Inl e)
    with ld have "trace = [SchemaGet, Print (PrintText ''Validating data'')]"
      by (simp add: load_def)
    with Inl Inr show ?thesis by simp
  next
    case v: (Inr v)
    obtain out ro v' where vs: "validate_and_split v = (out, ro, v')"
      by (cases "validate_and_split v") auto
    show ?thesis
    proof (cases ro)
      case (Some e)
      with ld v vs have "trace = [SchemaGet, Print (PrintText ''Validating data'')] @ map Print out"
        "r = Some e"
        by (simp_all add: load_def)
      with Inr v vs Some show ?thesis by (simp add: no_write_prints)
    next
      case None
      obtain rest r' where up: "upload fail_on_error batcher []
                   (map AddDataObject (data_objects v') @
                    map AddReference (data_references v') @ [Flush]) = (rest, r')"
        by (cases "upload fail_on_error batcher []
                   (map AddDataObject (data_objects v') @
                    map AddReference (data_references v') @ [Flush])") auto
      with ld v vs None have tr: "trace = [SchemaGet, Print (PrintText ''Validating data'')] @
          map Print out @ [Print (PrintText ''Importing data'')] @ rest" and r: "r = r'"
        by (simp_all add: load_def)
      from vs None obtain objs where objs: "document_objects (data v) = Inr objs"
        and loop: "validate_loop v objs = (out, None, v')"
        by (auto simp: validate_and_split_objects split: sum.splits)
      have "\<forall>obj\<in>set objs. fst (snd (validate_obj v obj)) = None"
        using loop by (rule validate_loop_all_valid)
      moreover have "document_objects d = Inr objs"
        using objs data_init_vasd [OF v] by simp
      ultimately show ?thesis
        using Inr v vs None tr r up by auto
    qed
  qed
qed

theorem import_validates_before_upload_witness:
  "filter is_write
     [SchemaGet, Print (PrintText ''Validating data''),
      Print (PrintValidationFailed (ClassNotInSchema (JStr ''Page'')))] = []
   \<and> import_data_from_file
       (Inr (JObj [(''classes'', JArr
          [JObj [(''class'', JStr ''Doc''), (''id'', JStr ''x1'')],
           JObj [(''class'', JStr ''Page''), (''id'', JStr ''x2'')]])]))
       (JObj [(''classes'', JArr [JObj [(''class'', JStr ''Doc''), (''properties'', JArr [])]])])
       False (\<lambda>calls. []) =
     ([SchemaGet, Print (PrintText ''Validating data''),
       Print (PrintValidationFailed (ClassNotInSchema (JStr ''Page'')))], Some (SysExit 1))"
proof -
  let ?d = "JObj [(''classes'', JArr
          [JObj [(''class'', JStr ''Doc''), (''id'', JStr ''x1'')],
           JObj [(''class'', JStr ''Page''), (''id'', JStr ''x2'')]])]"
  let ?s = "JObj [(''classes'', JArr [JObj [(''class'', JStr ''Doc''), (''properties'', JArr [])]])]"
  let ?v = "\<lparr>data = ?d, schema = [(JStr ''Doc'', \<lparr>primitive = [], ref = []\<rparr>)],
             data_objects = [], data_references = []\<rparr>"
  let ?trace = "[SchemaGet, Print (PrintText ''Validating data''),
       Print (PrintValidationFailed (ClassNotInSchema (JStr ''Page'')))]"
  have iv: "init_vasd ?d ?s = Inr ?v"
    by (simp add: init_vasd_def dissect_schema_def get_schema_properties_def)
  have vs: "validate_and_split ?v =
      ([PrintValidationFailed (ClassNotInSchema (JStr ''Page''))], Some (SysExit 1),
       ?v\<lparr>data_objects := [\<lparr>class_name = JStr ''Doc'', uuid = JStr ''x1'', data_object = [],
                               vector = None\<rparr>]\<rparr>)"
    by (simp add: validate_and_split_def validate_obj_def schema_lookup_def
        exit_validation_failed_def)
  have run: "import_data_from_file (Inr ?d) ?s False (\<lambda>calls. []) = (?trace, Some (SysExit 1))"
    by (simp add: import_data_from_file_def load_def iv vs)
  from import_validates_before_upload [OF run] iv vs
  have "filter is_write ?trace = []" by blast
  with run show ?thesis by simp
qed

text \<open>
  C8. When reading the input file raises (the file is not valid JSON), the run ends with
  that exception before anything else happens: no request for the schema, no call to the
  batcher, nothing printed, and the process ends with status 1. An input that is read but
  is not a dict fails with an AttributeError only after the schema was requested (and
  dissected), still before any call to the batcher; and a dict without \<open>classes\<close> is an
  empty document, imported without failure.
\<close>

theorem import_unparsable:
  "import_data_from_file (Inl (Raised e)) remote_schema fail_on_error batcher =
     ([], Some (Raised e))
   \<and> process_status (Some (Raised e)) = 1
   \<and> ((\<forall>kvs. d \<noteq> JObj kvs) \<and> schema_ok remote_schema \<longrightarrow>
        import_data_from_file (Inr d) remote_schema fail_on_error batcher =
          ([SchemaGet, Print (PrintText ''Validating data'')], Some (Raised AttributeError)))
   \<and> (map_of kvs ''classes'' = None \<and> schema_ok remote_schema \<and> batcher [Flush] = [] \<longrightarrow>
        import_data_from_file (Inr (JObj kvs)) remote_schema fail_on_error batcher =
          ([SchemaGet, Print (PrintText ''Validating data''),
            Print (PrintText ''Importing data''), Flush], None))"
proof (intro conjI impI)
  show "import_data_from_file (Inl (Raised e)) remote_schema fail_on_error batcher =
     ([], Some (Raised e))"
    by (simp add: import_data_from_file_def)
  show "process_status (Some (Raised e)) = 1" by simp
next
  assume h: "(\<forall>kvs. d \<noteq> JObj kvs) \<and> schema_ok remote_schema"
  then obtain dissected where ds: "dissect_schema remote_schema = Inr dissected"
    using dissect_schema_iff by blast
  from h have "dict_get d ''classes'' (JArr []) = Inl (Raised AttributeError)"
    by (cases d) auto
  then show "import_data_from_file (Inr d) remote_schema fail_on_error batcher =
          ([SchemaGet, Print (PrintText ''Validating data'')], Some (Raised AttributeError))"
    using ds by (simp add: import_data_from_file_def load_def init_vasd_def validate_and_split_def)
next
  assume h: "map_of kvs ''classes'' = None \<and> schema_ok remote_schema \<and> batcher [Flush] = []"
  then obtain dissected where ds: "dissect_schema remote_schema = Inr dissected"
    using dissect_schema_iff by blast
  show "import_data_from_file (Inr (JObj kvs)) remote_schema fail_on_error batcher =
          ([SchemaGet, Print (PrintText ''Validating data''),
            Print (PrintText ''Importing data''), Flush], None)"
    using ds h by (simp add: import_data_from_file_def load_def init_vasd_def validate_and_split_def)
qed

theorem import_unparsable_witness:
  "import_data_from_file (Inl (Raised JSONDecodeError)) (JObj [(''classes'', JArr [])]) False
     (\<lambda>calls. []) = ([], Some (Raised JSONDecodeError))
   \<and> import_data_from_file (Inr (JStr ''classes'')) (JObj [(''classes'', JArr [])]) False
     (\<lambda>calls. []) =
       ([SchemaGet, Print (PrintText ''Validating data'')], Some (Raised AttributeError))
   \<and> import_data_from_file (Inr (JObj [(''objects'', JArr [])])) (JObj [(''classes'', JArr [])])
     False (\<lambda>calls. []) =
       ([SchemaGet, Print (PrintText ''Validating data''),
         Print (PrintText ''Importing data''), Flush], None)"
  using import_unparsable [of JSONDecodeError "JObj [(''classes'', JArr [])]" False "\<lambda>calls. []"
      "JStr ''classes''" "[(''objects'', JArr [])]"]
  by (simp add: schema_ok_def schema_classes_def)

theorem import_unparsable_counterexample:
  "import_data_from_file (Inr (JArr [])) (JObj [(''classes'', JArr [])]) False (\<lambda>calls. []) =
     ([SchemaGet, Print (PrintText ''Validating data'')], Some (Raised AttributeError))"
  by (simp add: import_data_from_file_def load_def init_vasd_def dissect_schema_def
      validate_and_split_def)

end
